theory Spec2Isabelle
  imports Complex_Main
begin

section \<open>JavaScript values\<close>

text \<open>
  The values the transforms receive and return. A string is modelled by the bytes of its
  UTF-8 encoding, so an ASCII string is the list of its characters. A number is \<open>NaN\<close>,
  an infinity, or a finite decimal \<open>Fin m e\<close> standing for \<open>m * 10 ^ e\<close>, kept with \<open>m\<close>
  not divisible by ten (zero is \<open>Fin 0 0\<close>): this is the decimal that JavaScript prints
  for the number. Rounding to binary floating point, overflow to infinity and the sign of
  zero are not modelled. An array has no holes. An object is the list of its own
  properties in the order of their creation; that JavaScript enumerates integer-like keys
  first is not modelled.
\<close>

datatype jsnum = NaN | PosInf | NegInf | Fin int int

datatype jsval =
    Undefined
  | Null
  | Bool bool
  | Num jsnum
  | Str string
  | Arr "jsval list"
  | Obj "(string \<times> jsval) list"

text \<open>The exceptions that the modelled code can raise.\<close>

datatype js_error = TypeError | SyntaxError

type_synonym 'a result = "js_error + 'a"

definition isString :: "jsval \<Rightarrow> bool" where
  "isString v = (case v of Str _ \<Rightarrow> True | _ \<Rightarrow> False)"

definition isArray :: "jsval \<Rightarrow> bool" where
  "isArray v = (case v of Arr _ \<Rightarrow> True | _ \<Rightarrow> False)"

definition isUndefined :: "jsval \<Rightarrow> bool" where
  "isUndefined v = (v = Undefined)"

text \<open>\<^verbatim>\<open>!!value\<close>: the falsy values are undefined, null, false, zero, NaN and the empty string.\<close>

fun ToBoolean :: "jsval \<Rightarrow> bool" where
  "ToBoolean Undefined = False"
| "ToBoolean Null = False"
| "ToBoolean (Bool b) = b"
| "ToBoolean (Num NaN) = False"
| "ToBoolean (Num (Fin m e)) = (m \<noteq> 0)"
| "ToBoolean (Num _) = True"
| "ToBoolean (Str s) = (s \<noteq> [])"
| "ToBoolean (Arr _) = True"
| "ToBoolean (Obj _) = True"

section \<open>Strings and numbers of the JavaScript library\<close>

subsection \<open>Digits\<close>

definition is_digit :: "char \<Rightarrow> bool" where
  "is_digit c = (c \<in> set ''0123456789'')"

definition digit_val :: "char \<Rightarrow> nat" where
  "digit_val c = of_char c - 48"

definition digit_char :: "nat \<Rightarrow> char" where
  "digit_char n = ''0123456789'' ! n"

definition digits_nat :: "string \<Rightarrow> nat" where
  "digits_nat ds = foldl (\<lambda>a c. 10 * a + digit_val c) 0 ds"

function nat_digits :: "nat \<Rightarrow> string" where
  "nat_digits n =
    (if n < 10 then [digit_char n] else nat_digits (n div 10) @ [digit_char (n mod 10)])"
  by pat_completeness auto
termination
  by (relation "measure id") auto

declare nat_digits.simps [simp del]

definition byte_char :: "nat \<Rightarrow> char" where
  "byte_char n =
    Char (odd n) (odd (n div 2)) (odd (n div 4)) (odd (n div 8))
         (odd (n div 16)) (odd (n div 32)) (odd (n div 64)) (odd (n div 128))"

subsection \<open>split, join and white space\<close>

text \<open>
  \<^verbatim>\<open>str.split(separator)\<close> for a string separator: the pieces between the occurrences
  of the separator, found from the left without overlap. (An empty separator splits into
  single characters.)
\<close>

function split_from :: "string \<Rightarrow> string \<Rightarrow> string \<Rightarrow> string list" where
  "split_from sep cur [] = [cur]"
| "split_from sep cur (c # cs) =
    (if sep \<noteq> [] \<and> take (length sep) (c # cs) = sep
     then cur # split_from sep [] (drop (length sep) (c # cs))
     else split_from sep (cur @ [c]) cs)"
  by pat_completeness auto
termination
  by (relation "measure (\<lambda>(sep, cur, s). length s)") auto

definition split :: "string \<Rightarrow> string \<Rightarrow> string list" where
  "split s sep = (if sep = [] then map (\<lambda>c. [c]) s else split_from sep [] s)"

definition intercalate :: "string \<Rightarrow> string list \<Rightarrow> string" where
  "intercalate sep ss = (case ss of [] \<Rightarrow> [] | s # rest \<Rightarrow> s @ concat (map (\<lambda>t. sep @ t) rest))"

text \<open>
  The white space of JavaScript (WhiteSpace and LineTerminator code points), as UTF-8 byte
  sequences: tab, line feed, vertical tab, form feed, carriage return, space, U+00A0,
  U+1680, U+2000 to U+200A, U+2028, U+2029, U+202F, U+205F, U+3000 and U+FEFF.
\<close>

definition js_whitespace :: "string list" where
  "js_whitespace =
    [[CHR 0x09], [CHR 0x0A], [CHR 0x0B], [CHR 0x0C], [CHR 0x0D], [CHR 0x20],
     [CHR 0xC2, CHR 0xA0], [CHR 0xE1, CHR 0x9A, CHR 0x80],
     [CHR 0xE2, CHR 0x80, CHR 0x80], [CHR 0xE2, CHR 0x80, CHR 0x81],
     [CHR 0xE2, CHR 0x80, CHR 0x82], [CHR 0xE2, CHR 0x80, CHR 0x83],
     [CHR 0xE2, CHR 0x80, CHR 0x84], [CHR 0xE2, CHR 0x80, CHR 0x85],
     [CHR 0xE2, CHR 0x80, CHR 0x86], [CHR 0xE2, CHR 0x80, CHR 0x87],
     [CHR 0xE2, CHR 0x80, CHR 0x88], [CHR 0xE2, CHR 0x80, CHR 0x89],
     [CHR 0xE2, CHR 0x80, CHR 0x8A], [CHR 0xE2, CHR 0x80, CHR 0xA8],
     [CHR 0xE2, CHR 0x80, CHR 0xA9], [CHR 0xE2, CHR 0x80, CHR 0xAF],
     [CHR 0xE2, CHR 0x81, CHR 0x9F], [CHR 0xE3, CHR 0x80, CHR 0x80],
     [CHR 0xEF, CHR 0xBB, CHR 0xBF]]"

text \<open>Dropping, from the front of a string, every leading sequence out of a list.\<close>

function skip_seqs :: "string list \<Rightarrow> string \<Rightarrow> string" where
  "skip_seqs ws s =
    (case find (\<lambda>w. w \<noteq> [] \<and> take (length w) s = w) ws of
       None \<Rightarrow> s
     | Some w \<Rightarrow> skip_seqs ws (drop (length w) s))"
  by pat_completeness auto
termination
proof (relation "measure (\<lambda>(ws, s). length s)", goal_cases)
  case 1
  show ?case by simp
next
  case (2 ws s w)
  then have w: "w \<noteq> [] \<and> take (length w) s = w"
    by (auto simp: find_Some_iff)
  then have "s \<noteq> []" by auto
  with w show ?case by simp
qed

declare skip_seqs.simps [simp del]

text \<open>
  Modelled from the spec: \<^verbatim>\<open>trim\<close>, \<^verbatim>\<open>ucfirst\<close> and \<^verbatim>\<open>lcfirst\<close> of the utils
  module, which is not part of the sources. The spec names them as stateless string
  helpers: \<^verbatim>\<open>trim\<close> removes the white space at both ends, \<^verbatim>\<open>ucfirst\<close> capitalises the
  first character and \<^verbatim>\<open>lcfirst\<close> lowercases it (its inverse). The case of a character
  outside ASCII is left as it is.
\<close>

definition trim :: "string \<Rightarrow> string" where
  "trim s = rev (skip_seqs (map rev js_whitespace) (rev (skip_seqs js_whitespace s)))"

definition to_upper :: "char \<Rightarrow> char" where
  "to_upper c =
    (case map_of (zip ''abcdefghijklmnopqrstuvwxyz'' ''ABCDEFGHIJKLMNOPQRSTUVWXYZ'') c of
       Some u \<Rightarrow> u
     | None \<Rightarrow> c)"

definition to_lower :: "char \<Rightarrow> char" where
  "to_lower c =
    (case map_of (zip ''ABCDEFGHIJKLMNOPQRSTUVWXYZ'' ''abcdefghijklmnopqrstuvwxyz'') c of
       Some l \<Rightarrow> l
     | None \<Rightarrow> c)"

definition ucfirst :: "string \<Rightarrow> string" where
  "ucfirst s = (case s of [] \<Rightarrow> [] | c # cs \<Rightarrow> to_upper c # cs)"

definition lcfirst :: "string \<Rightarrow> string" where
  "lcfirst s = (case s of [] \<Rightarrow> [] | c # cs \<Rightarrow> to_lower c # cs)"

subsection \<open>Decimal numbers\<close>

definition strip_trailing_zeros :: "string \<Rightarrow> string" where
  "strip_trailing_zeros ds = rev (dropWhile (\<lambda>c. c = CHR ''0'') (rev ds))"

text \<open>
  The number written with integer digits \<open>ip\<close>, fraction digits \<open>fp\<close> and decimal
  exponent \<open>ex\<close>, in normal form.
\<close>

definition mk_num :: "bool \<Rightarrow> string \<Rightarrow> string \<Rightarrow> int \<Rightarrow> jsnum" where
  "mk_num neg ip fp ex =
    (let ds = ip @ fp;
         sig = strip_trailing_zeros ds;
         m = digits_nat sig
     in if m = 0 then Fin 0 0
        else Fin (if neg then - int m else int m)
                 (ex - int (length fp) + int (length ds - length sig)))"

text \<open>
  \<^verbatim>\<open>Number.prototype.toString\<close> (radix 10): with \<open>k\<close> significant digits and the decimal
  point after the \<open>n\<close>-th of them, plain notation for \<open>-6 < n \<le> 21\<close> and exponent notation
  otherwise.
\<close>

definition num_to_string :: "jsnum \<Rightarrow> string" where
  "num_to_string x =
    (case x of
       NaN \<Rightarrow> ''NaN''
     | PosInf \<Rightarrow> ''Infinity''
     | NegInf \<Rightarrow> ''-Infinity''
     | Fin m e \<Rightarrow>
        (if m = 0 then ''0''
         else
           let all = nat_digits (nat \<bar>m\<bar>);
               ds = strip_trailing_zeros all;
               k = int (length ds);
               n = k + e + int (length all - length ds);
               body =
                 (if k \<le> n \<and> n \<le> 21 then ds @ replicate (nat (n - k)) CHR ''0''
                  else if 0 < n \<and> n \<le> 21 then take (nat n) ds @ ''.'' @ drop (nat n) ds
                  else if - 6 < n \<and> n \<le> 0 then ''0.'' @ replicate (nat (- n)) CHR ''0'' @ ds
                  else
                    (if k = 1 then ds else take 1 ds @ ''.'' @ drop 1 ds)
                    @ ''e'' @ (if 0 \<le> n - 1 then ''+'' else ''-'') @ nat_digits (nat \<bar>n - 1\<bar>))
           in (if m < 0 then ''-'' @ body else body)))"

text \<open>
  An exponent part: \<^verbatim>\<open>e\<close> or \<^verbatim>\<open>E\<close>, an optional sign, at least one digit; the result
  is the exponent and the text after it.
\<close>

definition parse_exponent :: "string \<Rightarrow> (int \<times> string) option" where
  "parse_exponent s =
    (case s of
       [] \<Rightarrow> None
     | c # r \<Rightarrow>
        if c = CHR ''e'' \<or> c = CHR ''E'' then
          (let (neg, r1) =
                 (case r of
                    [] \<Rightarrow> (False, r)
                  | d # r' \<Rightarrow>
                     if d = CHR ''-'' then (True, r')
                     else if d = CHR ''+'' then (False, r') else (False, r));
               ds = takeWhile is_digit r1
           in if ds = [] then None
              else Some (if neg then - int (digits_nat ds) else int (digits_nat ds),
                         dropWhile is_digit r1))
        else None)"

text \<open>
  \<^verbatim>\<open>parseFloat\<close> on a string: leading white space is skipped, then the longest prefix that
  is a decimal literal (optional sign; \<^verbatim>\<open>Infinity\<close>, or digits with an optional fraction
  and exponent) is read; when there is none the result is NaN.
\<close>

definition parseFloat :: "string \<Rightarrow> jsnum" where
  "parseFloat input =
    (let s = skip_seqs js_whitespace input;
         (neg, s1) =
           (case s of
              [] \<Rightarrow> (False, s)
            | c # r \<Rightarrow>
               if c = CHR ''-'' then (True, r)
               else if c = CHR ''+'' then (False, r) else (False, s))
     in if take 8 s1 = ''Infinity'' then (if neg then NegInf else PosInf)
        else
          let ip = takeWhile is_digit s1;
              r1 = dropWhile is_digit s1;
              (fp, r2) =
                (case r1 of
                   [] \<Rightarrow> ([], r1)
                 | c # r \<Rightarrow>
                    if c = CHR ''.'' then (takeWhile is_digit r, dropWhile is_digit r)
                    else ([], r1))
          in if ip = [] \<and> fp = [] then NaN
             else mk_num neg ip fp (case parse_exponent r2 of Some (ex, _) \<Rightarrow> ex | None \<Rightarrow> 0))"

subsection \<open>Conversion to string\<close>

text \<open>
  \<^verbatim>\<open>String(value)\<close> and \<^verbatim>\<open>value + ''\<close>. An array prints its elements joined by commas,
  undefined and null elements as the empty string. A plain object prints as
  \<^verbatim>\<open>[object Object]\<close> through the inherited \<^verbatim>\<open>toString\<close>; an own property named
  \<^verbatim>\<open>toString\<close> shadows it, and since a data value is never callable the conversion then
  throws a TypeError.
\<close>

fun ToString :: "jsval \<Rightarrow> string result"
  and elem_strings :: "jsval list \<Rightarrow> (string list) result" where
  "ToString Undefined = Inr ''undefined''"
| "ToString Null = Inr ''null''"
| "ToString (Bool b) = Inr (if b then ''true'' else ''false'')"
| "ToString (Num x) = Inr (num_to_string x)"
| "ToString (Str s) = Inr s"
| "ToString (Arr xs) =
    (case elem_strings xs of Inl err \<Rightarrow> Inl err | Inr ss \<Rightarrow> Inr (intercalate '','' ss))"
| "ToString (Obj kvs) =
    (if ''toString'' \<in> set (map fst kvs) then Inl TypeError else Inr ''[object Object]'')"
| "elem_strings [] = Inr []"
| "elem_strings (x # xs) =
    (case (if x = Undefined \<or> x = Null then Inr [] else ToString x) of
       Inl err \<Rightarrow> Inl err
     | Inr s \<Rightarrow> (case elem_strings xs of Inl err \<Rightarrow> Inl err | Inr ss \<Rightarrow> Inr (s # ss)))"

subsection \<open>Own properties of an object\<close>

text \<open>
  \<^verbatim>\<open>obj[k]\<close> for an own property (\<open>None\<close> when there is none) and \<^verbatim>\<open>obj[k] = v\<close>: an
  existing property keeps its place, a new one is added at the end.
\<close>

definition obj_get :: "(string \<times> 'v) list \<Rightarrow> string \<Rightarrow> 'v option" where
  "obj_get kvs k = map_of kvs k"

fun obj_set :: "(string \<times> 'v) list \<Rightarrow> string \<Rightarrow> 'v \<Rightarrow> (string \<times> 'v) list" where
  "obj_set [] k v = [(k, v)]"
| "obj_set ((k', v') # kvs) k v = (if k' = k then (k, v) # kvs else (k', v') # obj_set kvs k v)"

definition keys :: "(string \<times> 'v) list \<Rightarrow> string list" where
  "keys kvs = map fst kvs"

section \<open>JSON\<close>

subsection \<open>JSON.parse\<close>

definition is_json_ws :: "char \<Rightarrow> bool" where
  "is_json_ws c = (c \<in> set [CHR 0x20, CHR 0x09, CHR 0x0A, CHR 0x0D])"

definition skip_ws :: "string \<Rightarrow> string" where
  "skip_ws s = dropWhile is_json_ws s"

text \<open>The UTF-8 bytes of a code point.\<close>

definition utf8_encode :: "nat \<Rightarrow> string" where
  "utf8_encode u =
    (if u < 0x80 then [byte_char u]
     else if u < 0x800 then [byte_char (0xC0 + u div 64), byte_char (0x80 + u mod 64)]
     else if u < 0x10000 then
       [byte_char (0xE0 + u div 4096), byte_char (0x80 + (u div 64) mod 64),
        byte_char (0x80 + u mod 64)]
     else
       [byte_char (0xF0 + u div 262144), byte_char (0x80 + (u div 4096) mod 64),
        byte_char (0x80 + (u div 64) mod 64), byte_char (0x80 + u mod 64)])"

definition hex_val :: "char \<Rightarrow> nat option" where
  "hex_val c = map_of (zip ''0123456789abcdefABCDEF'' ([0..<16] @ [10..<16])) c"

definition hex4 :: "char \<Rightarrow> char \<Rightarrow> char \<Rightarrow> char \<Rightarrow> nat option" where
  "hex4 a b c d =
    (case (hex_val a, hex_val b, hex_val c, hex_val d) of
       (Some x, Some y, Some z, Some w) \<Rightarrow> Some (4096 * x + 256 * y + 16 * z + w)
     | _ \<Rightarrow> None)"

definition simple_escape :: "char \<Rightarrow> char option" where
  "simple_escape e =
    map_of [(CHR 0x22, CHR 0x22), (CHR 0x5C, CHR 0x5C), (CHR ''/'', CHR ''/''),
            (CHR ''b'', CHR 0x08), (CHR ''f'', CHR 0x0C), (CHR ''n'', CHR 0x0A),
            (CHR ''r'', CHR 0x0D), (CHR ''t'', CHR 0x09)] e"

text \<open>
  The characters of a string literal after its opening quote, up to the closing quote:
  a byte of the text, or the code unit of a \<^verbatim>\<open>\uXXXX\<close> escape. A control character
  (below 0x20) may not stand in a string literal.
\<close>

datatype str_item = Byte char | Unit nat

fun parse_string_items :: "string \<Rightarrow> (str_item list \<times> string) option" where
  "parse_string_items [] = None"
| "parse_string_items (c # cs) =
    (if c = CHR 0x22 then Some ([], cs)
     else if c = CHR 0x5C then
       (case cs of
          [] \<Rightarrow> None
        | e # r \<Rightarrow>
           if e = CHR ''u'' then
             (case r of
                h1 # h2 # h3 # h4 # r' \<Rightarrow>
                  (case hex4 h1 h2 h3 h4 of
                     None \<Rightarrow> None
                   | Some u \<Rightarrow>
                      (case parse_string_items r' of
                         None \<Rightarrow> None
                       | Some (items, rest) \<Rightarrow> Some (Unit u # items, rest)))
              | _ \<Rightarrow> None)
           else
             (case simple_escape e of
                None \<Rightarrow> None
              | Some ch \<Rightarrow>
                 (case parse_string_items r of
                    None \<Rightarrow> None
                  | Some (items, rest) \<Rightarrow> Some (Byte ch # items, rest))))
     else if (of_char c :: nat) < 0x20 then None
     else
       (case parse_string_items cs of
          None \<Rightarrow> None
        | Some (items, rest) \<Rightarrow> Some (Byte c # items, rest)))"

text \<open>
  The string of the items: an escaped high surrogate followed by an escaped low
  surrogate is one code point; any other escape is encoded by itself.
\<close>

fun items_string :: "str_item list \<Rightarrow> string" where
  "items_string [] = []"
| "items_string (Byte c # is) = c # items_string is"
| "items_string (Unit hi # Unit lo # is) =
    (if 0xD800 \<le> hi \<and> hi < 0xDC00 \<and> 0xDC00 \<le> lo \<and> lo < 0xE000
     then utf8_encode (0x10000 + (hi - 0xD800) * 1024 + (lo - 0xDC00)) @ items_string is
     else utf8_encode hi @ items_string (Unit lo # is))"
| "items_string (Unit u # is) = utf8_encode u @ items_string is"

definition parse_string :: "string \<Rightarrow> (string \<times> string) option" where
  "parse_string cs =
    (case parse_string_items cs of
       None \<Rightarrow> None
     | Some (items, rest) \<Rightarrow> Some (items_string items, rest))"

text \<open>
  A JSON number: an optional minus, an integer part without a leading zero (or a single
  zero), an optional fraction with at least one digit, an optional exponent.
\<close>

definition parse_json_number :: "string \<Rightarrow> (jsnum \<times> string) option" where
  "parse_json_number s =
    (let neg = (case s of [] \<Rightarrow> False | c # _ \<Rightarrow> c = CHR ''-'');
         s1 = (if neg then tl s else s);
         zero = (case s1 of [] \<Rightarrow> False | c # _ \<Rightarrow> c = CHR ''0'');
         ip = (if zero then ''0'' else takeWhile is_digit s1);
         r1 = (if zero then tl s1 else dropWhile is_digit s1);
         frac = (case r1 of [] \<Rightarrow> False | c # r \<Rightarrow> c = CHR ''.'' \<and> takeWhile is_digit r \<noteq> []);
         fp = (if frac then takeWhile is_digit (tl r1) else []);
         r2 = (if frac then dropWhile is_digit (tl r1) else r1)
     in if ip = [] then None
        else
          (case parse_exponent r2 of
             Some (ex, r3) \<Rightarrow> Some (mk_num neg ip fp ex, r3)
           | None \<Rightarrow> Some (mk_num neg ip fp 0, r2)))"

lemma length_skip_ws: "length (skip_ws s) \<le> length s"
  by (simp add: skip_ws_def length_dropWhile_le)

lemma skip_ws_Cons_length: "skip_ws s = c # r \<Longrightarrow> length r < length s"
  using length_skip_ws [of s] by simp

lemma parse_string_items_length:
  "parse_string_items cs = Some (items, r) \<Longrightarrow> length r < length cs"
  by (induction cs arbitrary: items r rule: parse_string_items.induct)
     (fastforce split: if_splits list.splits option.splits)+

lemma parse_string_length: "parse_string cs = Some (str, r) \<Longrightarrow> length r < length cs"
  by (auto simp: parse_string_def split: option.splits dest: parse_string_items_length)

text \<open>
  A JSON value at the front of the text (white space already skipped), with the text
  that follows it; the elements of an array after its opening bracket; the members of an
  object after its opening brace. A repeated key keeps the last value. Every recursive
  call is on a shorter text; the two comparisons of lengths say so where the text comes
  out of a recursive call, and they always hold (see \<open>parse_value_shorter\<close>).
\<close>

function parse_value :: "string \<Rightarrow> (jsval \<times> string) option"
  and parse_elements :: "string \<Rightarrow> jsval list \<Rightarrow> (jsval \<times> string) option"
  and parse_members :: "string \<Rightarrow> (string \<times> jsval) list \<Rightarrow> (jsval \<times> string) option" where
  "parse_value [] = None"
| "parse_value (c # cs) =
    (if c = CHR ''['' then
       (case skip_ws cs of
          [] \<Rightarrow> None
        | d # r \<Rightarrow> if d = CHR '']'' then Some (Arr [], r) else parse_elements (skip_ws cs) [])
     else if c = CHR ''{'' then
       (case skip_ws cs of
          [] \<Rightarrow> None
        | d # r \<Rightarrow> if d = CHR ''}'' then Some (Obj [], r) else parse_members (skip_ws cs) [])
     else if c = CHR 0x22 then
       (case parse_string cs of None \<Rightarrow> None | Some (str, r) \<Rightarrow> Some (Str str, r))
     else if take 4 (c # cs) = ''true'' then Some (Bool True, drop 4 (c # cs))
     else if take 5 (c # cs) = ''false'' then Some (Bool False, drop 5 (c # cs))
     else if take 4 (c # cs) = ''null'' then Some (Null, drop 4 (c # cs))
     else (case parse_json_number (c # cs) of None \<Rightarrow> None | Some (n, r) \<Rightarrow> Some (Num n, r)))"
| "parse_elements s acc =
    (case parse_value s of
       None \<Rightarrow> None
     | Some (v, r) \<Rightarrow>
        if length r < length s then
          (case skip_ws r of
             [] \<Rightarrow> None
           | c # r' \<Rightarrow>
              if c = CHR '','' then parse_elements (skip_ws r') (acc @ [v])
              else if c = CHR '']'' then Some (Arr (acc @ [v]), r')
              else None)
        else None)"
| "parse_members [] acc = None"
| "parse_members (q # cs) acc =
    (if q = CHR 0x22 then
       (case parse_string cs of
          None \<Rightarrow> None
        | Some (key, r) \<Rightarrow>
           (case skip_ws r of
              [] \<Rightarrow> None
            | c1 # r1 \<Rightarrow>
               if c1 = CHR '':'' then
                 (case parse_value (skip_ws r1) of
                    None \<Rightarrow> None
                  | Some (v, r2) \<Rightarrow>
                     if length r2 < length (skip_ws r1) then
                       (case skip_ws r2 of
                          [] \<Rightarrow> None
                        | c # r3 \<Rightarrow>
                           if c = CHR '','' then parse_members (skip_ws r3) (obj_set acc key v)
                           else if c = CHR ''}'' then Some (Obj (obj_set acc key v), r3)
                           else None)
                     else None)
               else None))
     else None)"
  by pat_completeness auto
termination
proof (relation "measure (\<lambda>x. case x of
    Inl s \<Rightarrow> 2 * length s
  | Inr (Inl (s, acc)) \<Rightarrow> 2 * length s + 1
  | Inr (Inr (s, acc)) \<Rightarrow> 2 * length s + 1)", simp_all, goal_cases)
  case (1 c cs d r)
  then show ?case using skip_ws_Cons_length [of cs d r] by simp
next
  case (2 c cs d r)
  then show ?case using skip_ws_Cons_length [of cs d r] by simp
next
  case (3 s x2 v r c r')
  then show ?case
    using skip_ws_Cons_length [of r "CHR '',''" r'] length_skip_ws [of r'] by simp
next
  case (4 q cs x2 key r c1 r1)
  then show ?case
    using parse_string_length [of cs key r] skip_ws_Cons_length [of r "CHR '':''" r1]
      length_skip_ws [of r1]
    by simp
next
  case (5 q cs x2 key r c1 r1 x2a v r2 c r3)
  then show ?case
    using parse_string_length [of cs key r] skip_ws_Cons_length [of r "CHR '':''" r1]
      length_skip_ws [of r1] skip_ws_Cons_length [of r2 "CHR '',''" r3] length_skip_ws [of r3]
    by simp
qed

declare parse_value.simps [simp del] parse_elements.simps [simp del] parse_members.simps [simp del]

text \<open>
  \<^verbatim>\<open>JSON.parse(text)\<close> on a string: one value, with white space allowed around it;
  anything else is a SyntaxError.
\<close>

definition JSON_parse :: "string \<Rightarrow> jsval result" where
  "JSON_parse text =
    (case parse_value (skip_ws text) of
       None \<Rightarrow> Inl SyntaxError
     | Some (v, r) \<Rightarrow> if skip_ws r = [] then Inr v else Inl SyntaxError)"

text \<open>\<^verbatim>\<open>JSON.parse(value)\<close> on any value: the value is converted to a string first.\<close>

definition JSON_parse_value :: "jsval \<Rightarrow> jsval result" where
  "JSON_parse_value value =
    (case ToString value of Inl err \<Rightarrow> Inl err | Inr text \<Rightarrow> JSON_parse text)"

subsection \<open>JSON.stringify\<close>

definition hex_digit :: "nat \<Rightarrow> char" where
  "hex_digit n = ''0123456789abcdef'' ! n"

definition quote_char :: "char \<Rightarrow> string" where
  "quote_char c =
    (if c = CHR 0x22 then [CHR 0x5C, CHR 0x22]
     else if c = CHR 0x5C then [CHR 0x5C, CHR 0x5C]
     else if c = CHR 0x08 then [CHR 0x5C, CHR ''b'']
     else if c = CHR 0x0C then [CHR 0x5C, CHR ''f'']
     else if c = CHR 0x0A then [CHR 0x5C, CHR ''n'']
     else if c = CHR 0x0D then [CHR 0x5C, CHR ''r'']
     else if c = CHR 0x09 then [CHR 0x5C, CHR ''t'']
     else if (of_char c :: nat) < 0x20
       then [CHR 0x5C, CHR ''u'', CHR ''0'', CHR ''0'',
             hex_digit (of_char c div 16), hex_digit (of_char c mod 16)]
     else [c])"

definition quote_string :: "string \<Rightarrow> string" where
  "quote_string s = CHR 0x22 # concat (map quote_char s) @ [CHR 0x22]"

text \<open>
  \<^verbatim>\<open>JSON.stringify(value)\<close>; \<open>None\<close> is the result \<^verbatim>\<open>undefined\<close>. In an array an
  undefined element is written \<^verbatim>\<open>null\<close>; in an object a property with an undefined value
  is left out. NaN and the infinities are written \<^verbatim>\<open>null\<close>.
\<close>

fun JSON_stringify :: "jsval \<Rightarrow> string option"
  and stringify_elements :: "jsval list \<Rightarrow> string list"
  and stringify_members :: "(string \<times> jsval) list \<Rightarrow> string list" where
  "JSON_stringify Undefined = None"
| "JSON_stringify Null = Some ''null''"
| "JSON_stringify (Bool b) = Some (if b then ''true'' else ''false'')"
| "JSON_stringify (Num x) =
    Some (case x of Fin m e \<Rightarrow> num_to_string x | _ \<Rightarrow> ''null'')"
| "JSON_stringify (Str s) = Some (quote_string s)"
| "JSON_stringify (Arr xs) = Some (''['' @ intercalate '','' (stringify_elements xs) @ '']'')"
| "JSON_stringify (Obj kvs) = Some (''{'' @ intercalate '','' (stringify_members kvs) @ ''}'')"
| "stringify_elements [] = []"
| "stringify_elements (x # xs) =
    (case JSON_stringify x of None \<Rightarrow> ''null'' | Some s \<Rightarrow> s) # stringify_elements xs"
| "stringify_members [] = []"
| "stringify_members ((k, v) # kvs) =
    (case JSON_stringify v of
       None \<Rightarrow> stringify_members kvs
     | Some s \<Rightarrow> (quote_string k @ '':'' @ s) # stringify_members kvs)"

section \<open>Path resolver and parse driver\<close>

text \<open>
  Modelled from the spec: the Path Resolver's \<^verbatim>\<open>get\<close> and the top-level \<^verbatim>\<open>parse\<close> driver
  of the parse module, which is not part of the sources. A path is written
  \<^verbatim>\<open>a.b[0].c\<close>: its segments are the key names and indices between the dots and
  brackets. \<^verbatim>\<open>get(obj, path)\<close> walks the segments and is undefined as soon as a
  container is missing or not indexable; the empty path addresses the object itself. An
  object is indexed by its own keys, an array by the decimal indices below its length.
\<close>

fun path_segments_from :: "string \<Rightarrow> string \<Rightarrow> string list" where
  "path_segments_from cur [] = (if cur = [] then [] else [cur])"
| "path_segments_from cur (c # cs) =
    (if c \<in> set ''.[]''
     then (if cur = [] then [] else [cur]) @ path_segments_from [] cs
     else path_segments_from (cur @ [c]) cs)"

definition path_segments :: "string \<Rightarrow> string list" where
  "path_segments path = path_segments_from [] path"

definition is_index :: "string \<Rightarrow> bool" where
  "is_index seg = (seg \<noteq> [] \<and> list_all is_digit seg \<and> (seg = ''0'' \<or> hd seg \<noteq> CHR ''0''))"

definition get_segment :: "jsval \<Rightarrow> string \<Rightarrow> jsval" where
  "get_segment v seg =
    (case v of
       Obj kvs \<Rightarrow> (case obj_get kvs seg of Some x \<Rightarrow> x | None \<Rightarrow> Undefined)
     | Arr xs \<Rightarrow>
        if is_index seg \<and> digits_nat seg < length xs then xs ! digits_nat seg else Undefined
     | _ \<Rightarrow> Undefined)"

definition get :: "jsval \<Rightarrow> string \<Rightarrow> jsval" where
  "get obj path = foldl get_segment obj (path_segments path)"

text \<open>
  \<^verbatim>\<open>parse(path, fn, data, ...args)\<close> reads the sub-value at the path and applies the
  transform to it; the fixed arguments are bound into \<open>fn\<close>. The spec's exception (a
  transform that does not require scalar input, with the empty path, gets the whole
  object) is what \<open>get\<close> returns for the empty path anyway.
\<close>

definition parse :: "string \<Rightarrow> (jsval \<Rightarrow> 'a result) \<Rightarrow> jsval \<Rightarrow> 'a result" where
  "parse path fn data = fn (get data path)"

section \<open>Scalar coercers\<close>

subsection \<open>number\<close>

definition is_sep :: "char \<Rightarrow> bool" where
  "is_sep c = (c = CHR '','' \<or> c = CHR ''.'')"

text \<open>
  The lookahead \<^verbatim>\<open>(?=[^,.]*(\,|\.))\<close> at the text that follows a position: skip what is
  neither comma nor dot, then a comma or a dot must stand there.
\<close>

definition sep_ahead :: "string \<Rightarrow> bool" where
  "sep_ahead cs = (case dropWhile (\<lambda>d. \<not> is_sep d) cs of [] \<Rightarrow> False | d # _ \<Rightarrow> True)"

text \<open>
  \<^verbatim>\<open>value.replace(/(,|\.)(?=[^,.]*(\,|\.))/g, '')\<close>: every comma or dot at which the
  lookahead succeeds is removed.
\<close>

fun remove_grouping :: "string \<Rightarrow> string" where
  "remove_grouping [] = []"
| "remove_grouping (c # cs) =
    (if is_sep c \<and> sep_ahead cs then remove_grouping cs else c # remove_grouping cs)"

text \<open>\<^verbatim>\<open>.replace(',', '.')\<close>: a string pattern replaces its first occurrence only.\<close>

fun replace_first_comma :: "string \<Rightarrow> string" where
  "replace_first_comma [] = []"
| "replace_first_comma (c # cs) =
    (if c = CHR '','' then CHR ''.'' # cs else c # replace_first_comma cs)"

text \<open>
  \<^verbatim>\<open>number(value, NaNValue = 0)\<close>. The default applies when the argument is undefined.
  \<^verbatim>\<open>parseFloat\<close> converts a value that is not a string to a string first, which can throw
  (see \<open>ToString\<close>).
\<close>

definition number :: "jsval \<Rightarrow> jsval \<Rightarrow> jsval result" where
  "number value NaNValue0 =
    (let NaNValue = (if NaNValue0 = Undefined then Num (Fin 0 0) else NaNValue0);
         norm = (case value of
                   Str s \<Rightarrow> Str (replace_first_comma (remove_grouping s))
                 | _ \<Rightarrow> value)
     in case ToString norm of
          Inl err \<Rightarrow> Inl err
        | Inr str \<Rightarrow>
           (let num = parseFloat str
            in Inr (if num = NaN then NaNValue else Num num)))"

subsection \<open>boolean\<close>

text \<open>
  \<^verbatim>\<open>boolean(value, defaultValue)\<close>. \<^verbatim>\<open>_.contains(['1', 'true', 'yes'], value)\<close> is
  membership by strict equality.
\<close>

definition boolean :: "jsval \<Rightarrow> jsval \<Rightarrow> jsval" where
  "boolean value defaultValue =
    (if isUndefined value \<and> \<not> isUndefined defaultValue then defaultValue
     else (case value of
             Str s \<Rightarrow> Bool (s \<in> set [''1'', ''true'', ''yes''])
           | _ \<Rightarrow> Bool (ToBoolean value)))"

subsection \<open>array\<close>

text \<open>Mapping a function that can throw over a list: the first exception ends the loop.\<close>

fun map_result :: "('a \<Rightarrow> 'b result) \<Rightarrow> 'a list \<Rightarrow> ('b list) result" where
  "map_result f [] = Inr []"
| "map_result f (x # xs) =
    (case f x of
       Inl err \<Rightarrow> Inl err
     | Inr y \<Rightarrow> (case map_result f xs of Inl err \<Rightarrow> Inl err | Inr ys \<Rightarrow> Inr (y # ys)))"

text \<open>
  \<^verbatim>\<open>array(value, valueParser)\<close>. The two local variables \<^verbatim>\<open>result\<close> and \<^verbatim>\<open>validJson\<close>
  are followed through the statements of the function. \<^verbatim>\<open>JSON.parse(value)\<close> stands in a
  \<^verbatim>\<open>try\<close>, so the exception of the conversion to a string is caught with the syntax
  errors. The per-element parser is \<open>None\<close> when the argument is not a function.
\<close>

definition array :: "jsval \<Rightarrow> (jsval \<Rightarrow> jsval result) option \<Rightarrow> jsval result" where
  "array value valueParser =
    (let (result, validJson) =
           (case JSON_parse_value value of
              Inr v \<Rightarrow> (v, True)
            | Inl _ \<Rightarrow> (Arr [], False));
         result = (if validJson \<and> \<not> isArray result then Arr [] else result);
         result =
           (case value of
              Str s \<Rightarrow>
                if \<not> validJson \<and> length (trim s) \<noteq> 0
                then Arr (map Str (split s '',''))
                else result
            | _ \<Rightarrow> result)
     in case valueParser of
          None \<Rightarrow> Inr result
        | Some vp \<Rightarrow>
           (case result of
              Arr xs \<Rightarrow>
                (case map_result (\<lambda>k. parse (''['' @ nat_digits k @ '']'') vp result)
                        [0..<length xs] of
                   Inl err \<Rightarrow> Inl err
                 | Inr ys \<Rightarrow> Inr (Arr ys))
            | _ \<Rightarrow> Inl TypeError))"

subsection \<open>json\<close>

text \<open>\<^verbatim>\<open>json(value)\<close>: \<^verbatim>\<open>JSON.parse\<close> in a \<^verbatim>\<open>try\<close>; the \<^verbatim>\<open>catch\<close> returns undefined.\<close>

definition json :: "jsval \<Rightarrow> jsval result" where
  "json value =
    (case JSON_parse_value value of
       Inr v \<Rightarrow> Inr v
     | Inl _ \<Rightarrow> Inr Undefined)"

section \<open>ArrayTransformer\<close>

definition MODE_ANY :: string where "MODE_ANY = ''ANY''"
definition MODE_JSON :: string where "MODE_JSON = ''JSON''"
definition MODE_SEPARATOR :: string where "MODE_SEPARATOR = ''SEPARATOR''"

text \<open>\<^verbatim>\<open>parseJSON(str)\<close>: \<^verbatim>\<open>JSON.parse\<close> in a \<^verbatim>\<open>try\<close>; the \<^verbatim>\<open>catch\<close> returns null.\<close>

definition parseJSON :: "string \<Rightarrow> jsval" where
  "parseJSON str = (case JSON_parse str of Inr v \<Rightarrow> v | Inl _ \<Rightarrow> Null)"

text \<open>
  The options object and the transformer it configures. Mode and separator are strings;
  an option that is missing or the empty string is falsy, so the default is taken.
\<close>

record options =
  opt_mode :: "string option"
  opt_separator :: "string option"

record array_transformer =
  t_mode :: string
  t_separator :: string

definition ArrayTransformer :: "options \<Rightarrow> array_transformer" where
  "ArrayTransformer opts =
    \<lparr> t_mode = (case opt_mode opts of Some m \<Rightarrow> if m = [] then MODE_ANY else m | None \<Rightarrow> MODE_ANY),
      t_separator =
        (case opt_separator opts of Some s \<Rightarrow> if s = [] then '','' else s | None \<Rightarrow> '','') \<rparr>"

text \<open>
  \<^verbatim>\<open>ArrayTransformer.prototype.parse\<close>, statement by statement. \<^verbatim>\<open>value + ''\<close> can throw
  (see \<open>ToString\<close>); a string is left as it is.
\<close>

definition transformer_parse :: "array_transformer \<Rightarrow> jsval \<Rightarrow> jsval result" where
  "transformer_parse this value0 =
    (if isArray value0 then Inr value0
     else
       let result = value0 in
       case ToString value0 of
         Inl err \<Rightarrow> Inl err
       | Inr value \<Rightarrow>
          (let result =
                 (if t_mode this = MODE_JSON \<or> t_mode this = MODE_ANY
                  then parseJSON value else result);
               result = (if \<not> isArray result then Null else result);
               result =
                 (if t_mode this = MODE_SEPARATOR \<or> (t_mode this = MODE_ANY \<and> \<not> ToBoolean result)
                  then Arr (map Str (split value (t_separator this)))
                  else result)
           in Inr result))"

text \<open>
  \<^verbatim>\<open>ArrayTransformer.prototype.reverse\<close>. \<^verbatim>\<open>value.join(separator)\<close> converts the elements
  to strings, which can throw.
\<close>

definition transformer_reverse :: "array_transformer \<Rightarrow> jsval \<Rightarrow> jsval result" where
  "transformer_reverse this value =
    (case value of
       Arr xs \<Rightarrow>
         if t_mode this = MODE_JSON \<or> t_mode this = MODE_ANY then
           Inr (case JSON_stringify value of Some s \<Rightarrow> Str s | None \<Rightarrow> Undefined)
         else if t_mode this = MODE_SEPARATOR then
           (case elem_strings xs of
              Inl err \<Rightarrow> Inl err
            | Inr ss \<Rightarrow> Inr (Str (intercalate (t_separator this) ss)))
         else Inr value
     | _ \<Rightarrow> Inr value)"

section \<open>Multilingual transforms\<close>

definition CAMELCASE :: string where
  "CAMELCASE = ''camelCase''"

definition prefixUnderscore :: "string \<Rightarrow> string" where
  "prefixUnderscore x = CHR ''_'' # x"

text \<open>\<^verbatim>\<open>( parseType == CAMELCASE ) ? ucfirst : prefixUnderscore\<close>\<close>

definition languageTransform :: "string \<Rightarrow> string \<Rightarrow> string" where
  "languageTransform parseType = (if parseType = CAMELCASE then ucfirst else prefixUnderscore)"

text \<open>
  \<^verbatim>\<open>/[^\.]+$/.exec(path)\<close>: the characters after the last dot of the path; there is no
  match (\<open>None\<close>, the result \<^verbatim>\<open>null\<close>) when the path is empty or ends in a dot.
\<close>

definition last_segment :: "string \<Rightarrow> string option" where
  "last_segment path =
    (let seg = rev (takeWhile (\<lambda>c. c \<noteq> CHR ''.'') (rev path))
     in if seg = [] then None else Some seg)"

type_synonym value_parser = "jsval \<Rightarrow> jsval result"

text \<open>
  The body of \<^verbatim>\<open>languages.forEach\<close> in \<^verbatim>\<open>multilingual\<close>, with the object \<^verbatim>\<open>values\<close>
  that it fills; an exception of the per-value parser ends the loop.
\<close>

fun multilingual_forEach ::
  "(string \<Rightarrow> string) \<Rightarrow> value_parser \<Rightarrow> string \<Rightarrow> jsval \<Rightarrow> string list
    \<Rightarrow> (string \<times> jsval) list \<Rightarrow> ((string \<times> jsval) list) result" where
  "multilingual_forEach lt parser prefix data [] values = Inr values"
| "multilingual_forEach lt parser prefix data (lang # langs) values =
    (let key = prefix @ lt lang
     in case parse key parser data of
          Inl err \<Rightarrow> Inl err
        | Inr v \<Rightarrow>
           multilingual_forEach lt parser prefix data langs
             (if \<not> isUndefined v then obj_set values lang v else values))"

text \<open>
  \<^verbatim>\<open>multilingual(data, path, valueParser = (x => x), parseType = CAMELCASE, languages = [])\<close>.
  An argument that is \<open>None\<close> is undefined and takes its default.
  \<^verbatim>\<open>/[^\.]+$/.exec(path)[0]\<close> throws a TypeError when there is no match.
\<close>

definition multilingual ::
  "jsval \<Rightarrow> string \<Rightarrow> value_parser option \<Rightarrow> string option \<Rightarrow> string list option
    \<Rightarrow> jsval result" where
  "multilingual data path valueParser0 parseType0 languages0 =
    (let valueParser = (case valueParser0 of None \<Rightarrow> (\<lambda>x. Inr x) | Some f \<Rightarrow> f);
         parseType = (case parseType0 of None \<Rightarrow> CAMELCASE | Some t \<Rightarrow> t);
         languages = (case languages0 of None \<Rightarrow> [] | Some ls \<Rightarrow> ls);
         parser = (\<lambda>v. if isUndefined v then Inr Undefined else valueParser v)
     in case last_segment path of
          None \<Rightarrow> Inl TypeError
        | Some prefix \<Rightarrow>
           (case multilingual_forEach (languageTransform parseType) parser prefix data
                   languages [] of
              Inl err \<Rightarrow> Inl err
            | Inr values \<Rightarrow> Inr (Obj values)))"

subsection \<open>The suffix regex of groupingMultilingual\<close>


definition suffix_alternatives :: "(string \<Rightarrow> string) \<Rightarrow> string list \<Rightarrow> string list" where
  "suffix_alternatives lt languages = (if languages = [] then [[]] else map lt languages)"

text \<open>
  A match that starts at the front of \<open>s\<close>: the first group takes as many characters
  other than dots as it can and gives back one at a time, down to a single one, until
  what follows is one of the suffixes up to the end of the text. \<open>backtrack alts s n\<close>
  tries the first group with \<open>n\<close> characters, then with fewer; the result is the text
  of the first group.
\<close>

fun backtrack :: "string list \<Rightarrow> string \<Rightarrow> nat \<Rightarrow> string option" where
  "backtrack alts s 0 = None"
| "backtrack alts s (Suc n) =
    (if drop (Suc n) s \<in> set alts then Some (take (Suc n) s) else backtrack alts s n)"

definition match_here :: "string list \<Rightarrow> string \<Rightarrow> string option" where
  "match_here alts s = backtrack alts s (length (takeWhile (\<lambda>c. c \<noteq> CHR ''.'') s))"

text \<open>\<^verbatim>\<open>regex.exec(key)[1]\<close>: the match at the leftmost position that has one.\<close>

fun regex_exec :: "string list \<Rightarrow> string \<Rightarrow> string option" where
  "regex_exec alts [] = None"
| "regex_exec alts (c # cs) =
    (case match_here alts (c # cs) of
       Some g \<Rightarrow> Some g
     | None \<Rightarrow> regex_exec alts cs)"

definition regex_test :: "string list \<Rightarrow> string \<Rightarrow> bool" where
  "regex_test alts key = (regex_exec alts key \<noteq> None)"

subsection \<open>groupingMultilingual\<close>

text \<open>\<^verbatim>\<open>.unique()\<close> keeps the first occurrence of every element.\<close>

fun unique_from :: "'a list \<Rightarrow> 'a list \<Rightarrow> 'a list" where
  "unique_from seen [] = []"
| "unique_from seen (x # xs) =
    (if x \<in> set seen then unique_from seen xs else x # unique_from (x # seen) xs)"

definition unique :: "'a list \<Rightarrow> 'a list" where
  "unique xs = unique_from [] xs"

text \<open>
  \<^verbatim>\<open>.filter()\<close> without a predicate keeps the truthy elements: of a list of strings and
  nulls (\<open>None\<close>), the strings that are not empty.
\<close>

fun filter_truthy :: "string option list \<Rightarrow> string list" where
  "filter_truthy [] = []"
| "filter_truthy (None # xs) = filter_truthy xs"
| "filter_truthy (Some s # xs) = (if s = [] then filter_truthy xs else s # filter_truthy xs)"

text \<open>
  \<^verbatim>\<open>_.transform(multilingualKeys, (r, k) => { r[k] = multilingual(...); }, {})\<close>: the
  accumulator \<open>r\<close> is filled key by key.
\<close>

fun transform_multilingual ::
  "jsval \<Rightarrow> value_parser \<Rightarrow> string \<Rightarrow> string list \<Rightarrow> string list \<Rightarrow> (string \<times> jsval) list
    \<Rightarrow> ((string \<times> jsval) list) result" where
  "transform_multilingual data valueParser parseType languages [] r = Inr r"
| "transform_multilingual data valueParser parseType languages (k # ks) r =
    (case multilingual data k (Some valueParser) (Some parseType) (Some languages) of
       Inl err \<Rightarrow> Inl err
     | Inr m \<Rightarrow> transform_multilingual data valueParser parseType languages ks (obj_set r k m))"

text \<open>\<^verbatim>\<open>_.transform(regularKeys, (r, k) => { r[k] = data[k]; }, values)\<close>\<close>

fun transform_regular ::
  "(string \<times> jsval) list \<Rightarrow> string list \<Rightarrow> (string \<times> jsval) list \<Rightarrow> (string \<times> jsval) list" where
  "transform_regular data [] r = r"
| "transform_regular data (k # ks) r =
    transform_regular data ks
      (obj_set r k (case obj_get data k of Some v \<Rightarrow> v | None \<Rightarrow> Undefined))"

text \<open>
  \<^verbatim>\<open>groupingMultilingual(data, path, valueParser = (x => x), parseType = CAMELCASE,
  languages = [])\<close> on a source object, given by its properties. The path is not used.
\<close>

definition groupingMultilingual ::
  "(string \<times> jsval) list \<Rightarrow> string \<Rightarrow> value_parser option \<Rightarrow> string option
    \<Rightarrow> string list option \<Rightarrow> jsval result" where
  "groupingMultilingual data path valueParser0 parseType0 languages0 =
    (let valueParser = (case valueParser0 of None \<Rightarrow> (\<lambda>x. Inr x) | Some f \<Rightarrow> f);
         parseType = (case parseType0 of None \<Rightarrow> CAMELCASE | Some t \<Rightarrow> t);
         languages = (case languages0 of None \<Rightarrow> [] | Some ls \<Rightarrow> ls);
         regex = suffix_alternatives (languageTransform parseType) languages;
         multilingualKeys =
           filter_truthy
             (unique (map (\<lambda>key. if regex_test regex key then regex_exec regex key else None)
                (keys data)));
         regularKeys =
           filter_truthy
             (map (\<lambda>key. if regex_test regex key then None else Some key) (keys data))
     in case transform_multilingual (Obj data) valueParser parseType languages
               multilingualKeys [] of
          Inl err \<Rightarrow> Inl err
        | Inr values \<Rightarrow> Inr (Obj (transform_regular data regularKeys values)))"

text \<open>
  Modelled from the spec: the reverse direction of \<^verbatim>\<open>multilingual\<close>, whose code (the
  reversers module) is not part of the sources. Given the grouped object, it is
  re-expanded into sibling keys by re-appending each language suffix to the prefix,
  running the optional reverser on each language's value. A language without a value in
  the grouped object gives no key.
\<close>

definition multilingual_reverse ::
  "jsval \<Rightarrow> string \<Rightarrow> (jsval \<Rightarrow> jsval) option \<Rightarrow> string option \<Rightarrow> string list option
    \<Rightarrow> jsval" where
  "multilingual_reverse grouped prefix valueReverser0 parseType0 languages0 =
    (let valueReverser = (case valueReverser0 of None \<Rightarrow> (\<lambda>x. x) | Some f \<Rightarrow> f);
         parseType = (case parseType0 of None \<Rightarrow> CAMELCASE | Some t \<Rightarrow> t);
         languages = (case languages0 of None \<Rightarrow> [] | Some ls \<Rightarrow> ls)
     in Obj (foldl
          (\<lambda>r lang.
             let v = get_segment grouped lang
             in if isUndefined v then r
                else obj_set r (prefix @ languageTransform parseType lang) (valueReverser v))
          [] languages))"

section \<open>Function objects and their declared flags\<close>

text \<open>
  The transform functions of the parsers module are function objects; the module attaches
  flags to them by assignment after each definition (\<^verbatim>\<open>number.requiresScalarInput = true\<close>).
  A flag that was never assigned reads as \<^verbatim>\<open>undefined\<close>.
\<close>

datatype parser_fn =
    P_number | P_string | P_boolean | P_date | P_array | P_equals
  | P_multilingual | P_groupingMultilingual | P_matchKey | P_matchPrefixStrip
  | P_base64 | P_json

datatype fn_flag = RequiresScalarInput | NestsResult | InsertsParent

text \<open>
  The flag assignments of the parsers module, in the order of the file. Every one assigns
  \<^verbatim>\<open>true\<close>. The assignment after \<^verbatim>\<open>groupingMultilingual\<close> names \<^verbatim>\<open>multilingual\<close>
  again, as the source does.
\<close>

definition parsers_assignments :: "(parser_fn \<times> fn_flag) list" where
  "parsers_assignments =
    [ (P_number, RequiresScalarInput),
      (P_string, RequiresScalarInput),
      (P_boolean, RequiresScalarInput),
      (P_date, RequiresScalarInput),
      (P_array, RequiresScalarInput),
      (P_multilingual, NestsResult),
      (P_multilingual, NestsResult),
      (P_base64, RequiresScalarInput),
      (P_json, RequiresScalarInput) ]"

text \<open>Reading \<^verbatim>\<open>fn.flag\<close>: \<open>Some True\<close> when assigned, \<open>None\<close> for \<^verbatim>\<open>undefined\<close>.\<close>

definition get_flag :: "parser_fn \<Rightarrow> fn_flag \<Rightarrow> bool option" where
  "get_flag fn fl = (if (fn, fl) \<in> set parsers_assignments then Some True else None)"

text \<open>\<^verbatim>\<open>x || false\<close> for a flag value.\<close>

definition or_false :: "bool option \<Rightarrow> bool" where
  "or_false x = (case x of Some True \<Rightarrow> True | _ \<Rightarrow> False)"

subsection \<open>The factory\<close>

definition TYPE_CAMELCASE :: string where
  "TYPE_CAMELCASE = ''camelCase''"

definition TYPE_UNDERSCORE :: string where
  "TYPE_UNDERSCORE = ''underscore''"

text \<open>
  A field descriptor: the closure \<^verbatim>\<open>data => parse(path, parser, data, ...args)\<close> is kept as
  the transform it calls and the fixed arguments bound into it, next to the two properties
  \<^verbatim>\<open>createParser\<close> assigns. The fixed arguments here are those the multilingual factory
  binds: the path again, the per-value parser (if one was given), the naming convention
  (if one was given) and the language list.
\<close>

record 'vp descriptor =
  d_path :: string
  d_nestsResult :: bool
  d_parser :: parser_fn
  d_arg_path :: string
  d_arg_valueParser :: "'vp option"
  d_arg_parseType :: "string option"
  d_arg_languages :: "string list"

definition createParser ::
  "string \<Rightarrow> parser_fn \<Rightarrow> string \<Rightarrow> 'vp option \<Rightarrow> string option \<Rightarrow> string list
    \<Rightarrow> 'vp descriptor" where
  "createParser path parser a_path a_vp a_pt a_langs =
    \<lparr> d_path = path,
      d_nestsResult = or_false (get_flag parser NestsResult),
      d_parser = parser,
      d_arg_path = a_path,
      d_arg_valueParser = a_vp,
      d_arg_parseType = a_pt,
      d_arg_languages = a_langs \<rparr>"

text \<open>\<^verbatim>\<open>multilingual.AVAILABLE_LANGUAGES\<close>, as the module sets it.\<close>

definition AVAILABLE_LANGUAGES :: "string list" where
  "AVAILABLE_LANGUAGES = [''en'', ''nl'', ''fr'']"

text \<open>
  The multilingual factory. \<^verbatim>\<open>multilingual.TYPE_DEFAULT\<close> and \<^verbatim>\<open>multilingual.CAMELCASE\<close>
  are not set by the module, so \<^verbatim>\<open>parseType || TYPE_DEFAULT || CAMELCASE\<close> is the given
  convention or \<^verbatim>\<open>undefined\<close>; \<^verbatim>\<open>languages || AVAILABLE_LANGUAGES\<close> falls back to the
  module's list when no list is given. (A JavaScript array is truthy even when empty.)
  The \<^verbatim>\<open>.reverse\<close> descriptor is built from the reversers module, which is not part of
  the sources, and is left out.
\<close>

definition multilingual_factory ::
  "string \<Rightarrow> 'vp option \<Rightarrow> bool \<Rightarrow> string option \<Rightarrow> string list option \<Rightarrow> 'vp descriptor" where
  "multilingual_factory path valueParser grp parseType languages =
    (let parser = (if grp then P_groupingMultilingual else P_multilingual);
         parseType' = (case parseType of Some t \<Rightarrow> if t = [] then None else Some t | None \<Rightarrow> None);
         lang = (case languages of Some ls \<Rightarrow> ls | None \<Rightarrow> AVAILABLE_LANGUAGES)
     in createParser path parser path valueParser parseType' lang)"

section \<open>The transforms on a store of objects\<close>

text \<open>
  To say what a transform does to the object it is given, objects are kept in a store:
  a value is a primitive or a reference to an object or an array of the store, and an
  assignment \<^verbatim>\<open>obj[key] = v\<close> updates the store at the address of \<^verbatim>\<open>obj\<close>. The address
  of an object is its position in the store; a new object is added at the end.
\<close>

type_synonym addr = nat

datatype hval = HUndefined | HNull | HBool bool | HNum jsnum | HStr string | HRef addr

datatype hobj = HObject "(string \<times> hval) list" | HArray "hval list"

type_synonym store = "hobj list"

text \<open>The object literal \<^verbatim>\<open>{}\<close>.\<close>

definition new_object :: "store \<Rightarrow> store \<times> addr" where
  "new_object h = (h @ [HObject []], length h)"

text \<open>\<^verbatim>\<open>obj[key] = v\<close> for the object at an address.\<close>

definition h_put :: "store \<Rightarrow> addr \<Rightarrow> string \<Rightarrow> hval \<Rightarrow> store" where
  "h_put h a key v =
    (if a < length h then
       (case h ! a of
          HObject kvs \<Rightarrow> h[a := HObject (obj_set kvs key v)]
        | HArray xs \<Rightarrow> h)
     else h)"

text \<open>
  \<^verbatim>\<open>value[key]\<close>: an own property of an object, an element of an array, and undefined
  for anything else.
\<close>

definition h_get :: "store \<Rightarrow> hval \<Rightarrow> string \<Rightarrow> hval" where
  "h_get h v key =
    (case v of
       HRef a \<Rightarrow>
         if a < length h then
           (case h ! a of
              HObject kvs \<Rightarrow> (case obj_get kvs key of Some x \<Rightarrow> x | None \<Rightarrow> HUndefined)
            | HArray xs \<Rightarrow>
               if is_index key \<and> digits_nat key < length xs then xs ! digits_nat key
               else HUndefined)
         else HUndefined
     | _ \<Rightarrow> HUndefined)"

text \<open>The keys that \<^verbatim>\<open>_.keys(value)\<close> and \<^verbatim>\<open>for (key in value)\<close> enumerate.\<close>

definition h_keys :: "store \<Rightarrow> hval \<Rightarrow> string list" where
  "h_keys h v =
    (case v of
       HRef a \<Rightarrow>
         if a < length h then
           (case h ! a of
              HObject kvs \<Rightarrow> keys kvs
            | HArray xs \<Rightarrow> map nat_digits [0..<length xs])
         else []
     | _ \<Rightarrow> [])"

text \<open>The path resolver's \<^verbatim>\<open>get\<close> (see \<open>get\<close>) on the store; it only reads.\<close>

definition h_get_path :: "store \<Rightarrow> hval \<Rightarrow> string \<Rightarrow> hval" where
  "h_get_path h v path = foldl (h_get h) v (path_segments path)"

subsection \<open>matchKey and matchPrefixStrip\<close>

text \<open>
  The body of \<^verbatim>\<open>for (const key in value)\<close> in \<^verbatim>\<open>matchKey\<close>:
  \<^verbatim>\<open>if (regex.test(key)) result[key] = value[key]\<close>. The regular expression is given by
  its test on a key.
\<close>

fun matchKey_loop :: "(string \<Rightarrow> bool) \<Rightarrow> hval \<Rightarrow> addr \<Rightarrow> string list \<Rightarrow> store \<Rightarrow> store" where
  "matchKey_loop test v result [] h = h"
| "matchKey_loop test v result (key # ks) h =
    matchKey_loop test v result ks
      (if test key then h_put h result key (h_get h v key) else h)"

text \<open>\<^verbatim>\<open>matchKey(value, match)\<close> for a regular expression \<^verbatim>\<open>match\<close>.\<close>

definition matchKey :: "store \<Rightarrow> hval \<Rightarrow> (string \<Rightarrow> bool) \<Rightarrow> store \<times> hval" where
  "matchKey h v test =
    (let (h1, result) = new_object h;
         h2 = matchKey_loop test v result (h_keys h1 v) h1
     in (h2, HRef result))"

text \<open>
  \<^verbatim>\<open>new RegExp('^' + match)\<close> for a prefix without special characters: the test, and
  \<^verbatim>\<open>key.replace(regex, '')\<close>.
\<close>

definition prefix_test :: "string \<Rightarrow> string \<Rightarrow> bool" where
  "prefix_test m key = (take (length m) key = m)"

definition prefix_strip :: "string \<Rightarrow> string \<Rightarrow> string" where
  "prefix_strip m key = (if prefix_test m key then drop (length m) key else key)"

text \<open>
  The body of \<^verbatim>\<open>for (const key in matched)\<close> in \<^verbatim>\<open>matchPrefixStrip\<close>:
  \<^verbatim>\<open>result[lcfirst(key.replace(regex, ''))] = matched[key]\<close>.
\<close>

fun matchPrefixStrip_loop :: "string \<Rightarrow> hval \<Rightarrow> addr \<Rightarrow> string list \<Rightarrow> store \<Rightarrow> store" where
  "matchPrefixStrip_loop m matched result [] h = h"
| "matchPrefixStrip_loop m matched result (key # ks) h =
    matchPrefixStrip_loop m matched result ks
      (h_put h result (lcfirst (prefix_strip m key)) (h_get h matched key))"

text \<open>\<^verbatim>\<open>matchPrefixStrip(value, match)\<close>\<close>

definition matchPrefixStrip :: "store \<Rightarrow> hval \<Rightarrow> string \<Rightarrow> store \<times> hval" where
  "matchPrefixStrip h v m =
    (let (h1, matched) = matchKey h v (prefix_test m);
         (h2, result) = new_object h1;
         h3 = matchPrefixStrip_loop m matched result (h_keys h2 matched) h2
     in (h3, HRef result))"

subsection \<open>multilingual and groupingMultilingual\<close>

text \<open>
  A per-value parser on the store: it may allocate (and could write); an exception is
  a result \<open>Inl\<close>.
\<close>

type_synonym store_parser = "store \<Rightarrow> hval \<Rightarrow> (store \<times> hval) result"

text \<open>The loop of \<^verbatim>\<open>multilingual\<close> (see \<open>multilingual_forEach\<close>), writing to \<^verbatim>\<open>values\<close>.\<close>

fun multilingual_forEach_store ::
  "(string \<Rightarrow> string) \<Rightarrow> store_parser \<Rightarrow> string \<Rightarrow> hval \<Rightarrow> addr \<Rightarrow> string list \<Rightarrow> store
    \<Rightarrow> store result" where
  "multilingual_forEach_store lt valueParser prefix data vals [] h = Inr h"
| "multilingual_forEach_store lt valueParser prefix data vals (lang # langs) h =
    (let key = prefix @ lt lang;
         x = h_get_path h data key
     in case (if x = HUndefined then Inr (h, HUndefined) else valueParser h x) of
          Inl err \<Rightarrow> Inl err
        | Inr (h', v) \<Rightarrow>
           multilingual_forEach_store lt valueParser prefix data vals langs
             (if v \<noteq> HUndefined then h_put h' vals lang v else h'))"

definition multilingual_store ::
  "store \<Rightarrow> hval \<Rightarrow> string \<Rightarrow> store_parser \<Rightarrow> string \<Rightarrow> string list \<Rightarrow> (store \<times> hval) result" where
  "multilingual_store h data path valueParser parseType languages =
    (case last_segment path of
       None \<Rightarrow> Inl TypeError
     | Some prefix \<Rightarrow>
        (let (h1, vals) = new_object h
         in case multilingual_forEach_store (languageTransform parseType) valueParser prefix
                   data vals languages h1 of
              Inl err \<Rightarrow> Inl err
            | Inr h2 \<Rightarrow> Inr (h2, HRef vals)))"

text \<open>
  The two \<^verbatim>\<open>_.transform\<close> loops of \<^verbatim>\<open>groupingMultilingual\<close> (see
  \<open>transform_multilingual\<close> and \<open>transform_regular\<close>), writing to the accumulator \<open>r\<close>.
\<close>

fun transform_multilingual_store ::
  "hval \<Rightarrow> store_parser \<Rightarrow> string \<Rightarrow> string list \<Rightarrow> addr \<Rightarrow> string list \<Rightarrow> store
    \<Rightarrow> store result" where
  "transform_multilingual_store data valueParser parseType languages r [] h = Inr h"
| "transform_multilingual_store data valueParser parseType languages r (k # ks) h =
    (case multilingual_store h data k valueParser parseType languages of
       Inl err \<Rightarrow> Inl err
     | Inr (h', m) \<Rightarrow>
        transform_multilingual_store data valueParser parseType languages r ks
          (h_put h' r k m))"

fun transform_regular_store :: "hval \<Rightarrow> addr \<Rightarrow> string list \<Rightarrow> store \<Rightarrow> store" where
  "transform_regular_store data r [] h = h"
| "transform_regular_store data r (k # ks) h =
    transform_regular_store data r ks (h_put h r k (h_get h data k))"

definition groupingMultilingual_store ::
  "store \<Rightarrow> hval \<Rightarrow> string \<Rightarrow> store_parser \<Rightarrow> string \<Rightarrow> string list \<Rightarrow> (store \<times> hval) result" where
  "groupingMultilingual_store h data path valueParser parseType languages =
    (let regex = suffix_alternatives (languageTransform parseType) languages;
         multilingualKeys =
           filter_truthy
             (unique (map (\<lambda>key. if regex_test regex key then regex_exec regex key else None)
                (h_keys h data)));
         regularKeys =
           filter_truthy
             (map (\<lambda>key. if regex_test regex key then None else Some key) (h_keys h data));
         (h1, vals) = new_object h
     in case transform_multilingual_store data valueParser parseType languages vals
               multilingualKeys h1 of
          Inl err \<Rightarrow> Inl err
        | Inr h2 \<Rightarrow> Inr (transform_regular_store data vals regularKeys h2, HRef vals))"

subsection \<open>What a call leaves unchanged\<close>

text \<open>
  \<open>preserves h h'\<close>: every object of the store \<open>h\<close> is in \<open>h'\<close> at the same address with
  the same content. \<open>read n h v\<close> is the value seen through \<open>v\<close> in the store, down to
  depth \<open>n\<close>; two values are deep-equal when they read the same at every depth.
\<close>

definition preserves :: "store \<Rightarrow> store \<Rightarrow> bool" where
  "preserves h h' = (take (length h) h' = h)"

fun read :: "nat \<Rightarrow> store \<Rightarrow> hval \<Rightarrow> jsval" where
  "read n h HUndefined = Undefined"
| "read n h HNull = Null"
| "read n h (HBool b) = Bool b"
| "read n h (HNum x) = Num x"
| "read n h (HStr s) = Str s"
| "read 0 h (HRef a) = Undefined"
| "read (Suc n) h (HRef a) =
    (if a < length h then
       (case h ! a of
          HObject kvs \<Rightarrow> Obj (map (\<lambda>(k, v). (k, read n h v)) kvs)
        | HArray xs \<Rightarrow> Arr (map (read n h) xs))
     else Undefined)"

text \<open>The references of a value and of an object; a store without dangling references.\<close>

definition refs_below :: "nat \<Rightarrow> hval \<Rightarrow> bool" where
  "refs_below n v = (case v of HRef a \<Rightarrow> a < n | _ \<Rightarrow> True)"

definition obj_vals :: "hobj \<Rightarrow> hval list" where
  "obj_vals ob = (case ob of HObject kvs \<Rightarrow> map snd kvs | HArray xs \<Rightarrow> xs)"

definition closed :: "store \<Rightarrow> bool" where
  "closed h = list_all (\<lambda>ob. list_all (refs_below (length h)) (obj_vals ob)) h"

text \<open>A per-value parser that leaves the objects of the store as they are.\<close>

definition frame_respecting :: "store_parser \<Rightarrow> bool" where
  "frame_respecting vp = (\<forall>h v h' w. vp h v = Inr (h', w) \<longrightarrow> preserves h h')"

section \<open>Properties of the scalar coercers\<close>

subsection \<open>number\<close>

lemma sep_ahead_iff: "sep_ahead cs \<longleftrightarrow> (\<exists>d\<in>set cs. is_sep d)"
  unfolding sep_ahead_def by (induction cs) auto

lemma remove_grouping_no_sep:
  "\<forall>d\<in>set s. \<not> is_sep d \<Longrightarrow> remove_grouping s = s"
  by (induction s) auto

lemma remove_grouping_last_sep:
  assumes "is_sep c" and "\<forall>d\<in>set post. \<not> is_sep d"
  shows "remove_grouping (pre @ c # post) = filter (\<lambda>d. \<not> is_sep d) pre @ c # post"
proof (induction pre)
  case Nil
  from assms show ?case
    by (simp add: sep_ahead_iff remove_grouping_no_sep)
next
  case (Cons a pre)
  from assms(1) have "sep_ahead (pre @ c # post)"
    by (auto simp: sep_ahead_iff)
  with Cons show ?case by simp
qed

lemma replace_first_comma_no_comma:
  "CHR '','' \<notin> set s \<Longrightarrow> replace_first_comma s = s"
  by (induction s) auto

lemma replace_first_comma_at_sep:
  assumes "CHR '','' \<notin> set xs" and "is_sep c" and "CHR '','' \<notin> set post"
  shows "replace_first_comma (xs @ c # post) = xs @ CHR ''.'' # post"
  using assms
  by (induction xs) (auto simp: is_sep_def replace_first_comma_no_comma)

lemma number_Str:
  "number (Str s) fb =
    Inr (let n = parseFloat (replace_first_comma (remove_grouping s))
         in if n = NaN then (if fb = Undefined then Num (Fin 0 0) else fb) else Num n)"
  by (simp add: number_def Let_def)

lemmas number_eval_defs =
  number_def parseFloat_def is_sep_def sep_ahead_def skip_seqs.simps js_whitespace_def is_digit_def Let_def
  parse_exponent_def mk_num_def strip_trailing_zeros_def digits_nat_def digit_val_def

text \<open>
  Claim C6. On a string input the number coercer never throws. When the string holds a
  comma or a dot, every comma and dot before the last one is removed and the last one is
  read as the decimal point; a string without comma or dot is read as it is. The text is
  parsed as a float, and when the parse is not-a-number the result is the fallback, which
  is 0 when none was supplied. In particular number("1.234,56") = 1234.56 (the decimal
  123456 * 10^-2) and number("abc", 7) = 7.
\<close>

theorem C6_number_on_strings:
  "(is_sep c \<and> (\<forall>d\<in>set post. \<not> is_sep d) \<longrightarrow>
      number (Str (pre @ c # post)) fb =
        Inr (let n = parseFloat (filter (\<lambda>d. \<not> is_sep d) pre @ CHR ''.'' # post)
             in if n = NaN then (if fb = Undefined then Num (Fin 0 0) else fb) else Num n)) \<and>
   ((\<forall>d\<in>set s. \<not> is_sep d) \<longrightarrow>
      number (Str s) fb =
        Inr (let n = parseFloat s
             in if n = NaN then (if fb = Undefined then Num (Fin 0 0) else fb) else Num n)) \<and>
   number (Str ''1.234,56'') Undefined = Inr (Num (Fin 123456 (- 2))) \<and>
   number (Str ''abc'') (Num (Fin 7 0)) = Inr (Num (Fin 7 0))"
proof (intro conjI impI)
  assume a: "is_sep c \<and> (\<forall>d\<in>set post. \<not> is_sep d)"
  let ?xs = "filter (\<lambda>d. \<not> is_sep d) pre"
  have 1: "remove_grouping (pre @ c # post) = ?xs @ c # post"
    using a by (simp add: remove_grouping_last_sep)
  have 2: "CHR '','' \<notin> set ?xs" "CHR '','' \<notin> set post"
    using a by (auto simp: is_sep_def)
  have "replace_first_comma (?xs @ c # post) = ?xs @ CHR ''.'' # post"
    using 2 a by (intro replace_first_comma_at_sep) auto
  with 1 show "number (Str (pre @ c # post)) fb =
        Inr (let n = parseFloat (?xs @ CHR ''.'' # post)
             in if n = NaN then (if fb = Undefined then Num (Fin 0 0) else fb) else Num n)"
    by (simp add: number_Str)
next
  assume a: "\<forall>d\<in>set s. \<not> is_sep d"
  then have "CHR '','' \<notin> set s" by (auto simp: is_sep_def)
  with a show "number (Str s) fb =
        Inr (let n = parseFloat s
             in if n = NaN then (if fb = Undefined then Num (Fin 0 0) else fb) else Num n)"
    by (simp add: number_Str remove_grouping_no_sep replace_first_comma_no_comma)
next
  show "number (Str ''1.234,56'') Undefined = Inr (Num (Fin 123456 (- 2)))"
    by (simp add: number_eval_defs)
next
  show "number (Str ''abc'') (Num (Fin 7 0)) = Inr (Num (Fin 7 0))"
    by (simp add: number_eval_defs)
qed

text \<open>
  The theorem at "1,234,567.891" (two grouping commas, a final dot; no fallback, so the
  parsed number is returned) and at "12x" (no comma or dot).
\<close>

theorem C6_number_witness:
  "number (Str ''1,234,567.891'') Undefined = Inr (Num (Fin 1234567891 (- 3))) \<and>
   number (Str ''12x'') (Str ''none'') = Inr (Num (Fin 12 0))"
proof -
  have sep: "is_sep CHR ''.'' \<and> (\<forall>d\<in>set ''891''. \<not> is_sep d)"
    by (simp add: is_sep_def)
  have "number (Str (''1,234,567'' @ CHR ''.'' # ''891'')) Undefined =
      Inr (let n = parseFloat (filter (\<lambda>d. \<not> is_sep d) ''1,234,567'' @ CHR ''.'' # ''891'')
           in if n = NaN then (if Undefined = Undefined then Num (Fin 0 0) else Undefined)
              else Num n)"
    using C6_number_on_strings [of "CHR ''.''" "''891''" "''1,234,567''" Undefined] sep
    by blast
  then have 1: "number (Str ''1,234,567.891'') Undefined = Inr (Num (Fin 1234567891 (- 3)))"
    by (simp add: number_eval_defs)
  have nosep: "\<forall>d\<in>set ''12x''. \<not> is_sep d"
    by (simp add: is_sep_def)
  have "number (Str ''12x'') (Str ''none'') =
      Inr (let n = parseFloat ''12x''
           in if n = NaN then (if Str ''none'' = Undefined then Num (Fin 0 0) else Str ''none'')
              else Num n)"
    using C6_number_on_strings [of _ _ _ "Str ''none''" "''12x''"] nosep
    by blast
  then have 2: "number (Str ''12x'') (Str ''none'') = Inr (Num (Fin 12 0))"
    by (simp add: number_eval_defs)
  from 1 2 show ?thesis by simp
qed

subsection \<open>boolean\<close>

text \<open>
  Claim C7. For a string input the boolean coercer returns true exactly when the string
  is "1", "true" or "yes" (compared as strings, so case matters); for an input that is not
  a string it returns the truthiness of the input, unless the input is undefined and a
  default was supplied, in which case the default is returned as it is. In particular
  boolean("yes") = true, boolean(undefined, false) = false and boolean(0) = false.
\<close>

theorem C7_boolean_coercer:
  "boolean (Str s) d = Bool (s = ''1'' \<or> s = ''true'' \<or> s = ''yes'') \<and>
   (\<not> isString v \<and> \<not> (v = Undefined \<and> d \<noteq> Undefined) \<longrightarrow>
      boolean v d = Bool (ToBoolean v)) \<and>
   (d \<noteq> Undefined \<longrightarrow> boolean Undefined d = d) \<and>
   boolean (Str ''yes'') Undefined = Bool True \<and>
   boolean Undefined (Bool False) = Bool False \<and>
   boolean (Num (Fin 0 0)) Undefined = Bool False"
proof (intro conjI impI)
  show "boolean (Str s) d = Bool (s = ''1'' \<or> s = ''true'' \<or> s = ''yes'')"
    by (simp add: boolean_def isUndefined_def)
next
  assume "\<not> isString v \<and> \<not> (v = Undefined \<and> d \<noteq> Undefined)"
  then show "boolean v d = Bool (ToBoolean v)"
    by (cases v) (auto simp: boolean_def isUndefined_def isString_def)
next
  assume "d \<noteq> Undefined"
  then show "boolean Undefined d = d"
    by (simp add: boolean_def isUndefined_def)
qed (simp_all add: boolean_def isUndefined_def)

text \<open>
  The theorem at "YES" (not one of the three strings), at an empty array with a default
  (truthy, the default is ignored) and at undefined with the default "d".
\<close>

theorem C7_boolean_witness:
  "boolean (Str ''YES'') Undefined = Bool False \<and>
   boolean (Arr []) (Bool False) = Bool True \<and>
   boolean Undefined (Str ''d'') = Str ''d''"
  using C7_boolean_coercer [of "''YES''" Undefined "Arr []"]
    C7_boolean_coercer [of "''1''" "Bool False" "Arr []"]
    C7_boolean_coercer [of "''1''" "Str ''d''" "Arr []"]
  by (simp add: isString_def)

section \<open>Properties of JSON.parse\<close>

lemmas json_eval =
  JSON_parse_value_def JSON_parse_def parse_value.simps parse_elements.simps parse_members.simps
  skip_ws_def is_json_ws_def parse_string_def hex4_def hex_val_def simple_escape_def
  utf8_encode_def byte_char_def parse_json_number_def parse_exponent_def mk_num_def
  strip_trailing_zeros_def digits_nat_def digit_val_def is_digit_def Let_def

lemma set_skip_seqs: "set s \<subseteq> set (skip_seqs W s) \<union> \<Union> (set ` set W)"
proof (induction W s rule: skip_seqs.induct)
  case (1 ws s)
  show ?case
  proof (cases "find (\<lambda>w. w \<noteq> [] \<and> take (length w) s = w) ws")
    case None
    then show ?thesis by (simp add: skip_seqs.simps [of ws s])
  next
    case (Some w)
    then have w: "w \<in> set ws" "take (length w) s = w"
      by (auto simp: find_Some_iff)
    have "set s = set (take (length w) s) \<union> set (drop (length w) s)"
      by (metis append_take_drop_id set_append)
    also have "\<dots> \<subseteq> set w \<union> (set (skip_seqs ws (drop (length w) s)) \<union> \<Union> (set ` set ws))"
      using 1 [OF Some] w by auto
    also have "\<dots> \<subseteq> set (skip_seqs ws s) \<union> \<Union> (set ` set ws)"
      using Some w by (auto simp: skip_seqs.simps [of ws s])
    finally show ?thesis .
  qed
qed

lemma trim_empty_no_bracket:
  assumes "trim s = []"
  shows "CHR ''['' \<notin> set s"
proof -
  let ?t = "skip_seqs js_whitespace s"
  from assms have "skip_seqs (map rev js_whitespace) (rev ?t) = []"
    by (simp add: trim_def)
  then have "set (rev ?t) \<subseteq> \<Union> (set ` set (map rev js_whitespace))"
    using set_skip_seqs [of "rev ?t" "map rev js_whitespace"] by simp
  then have "set ?t \<subseteq> \<Union> (set ` set js_whitespace)"
    by auto
  then have "set s \<subseteq> \<Union> (set ` set js_whitespace)"
    using set_skip_seqs [of s js_whitespace] by blast
  moreover have "CHR ''['' \<notin> \<Union> (set ` set js_whitespace)"
    by (simp add: js_whitespace_def)
  ultimately show ?thesis by blast
qed

lemma parse_result_shapes:
  "parse_value s = Some (v, r) \<Longrightarrow> isArray v \<Longrightarrow> (\<exists>cs. s = CHR ''['' # cs)"
  "parse_elements s1 acc1 = Some (v1, r1) \<Longrightarrow> isArray v1"
  "parse_members s2 acc2 = Some (v2, r2) \<Longrightarrow> \<not> isArray v2"
proof (induction s and s1 acc1 and s2 acc2 arbitrary: v r and v1 r1 and v2 r2
    rule: parse_value_parse_elements_parse_members.induct)
  case 1
  then show ?case by (simp add: parse_value.simps)
next
  case (2 c cs)
  from "2.prems" "2.IH"(2) show ?case
    by (auto simp: parse_value.simps isArray_def split: if_splits list.splits option.splits)
next
  case (3 s acc)
  from "3.prems" "3.IH"(2) show ?case
    by (auto simp: parse_elements.simps [of s acc] isArray_def
        split: if_splits list.splits option.splits)
next
  case (4 acc)
  then show ?case by (simp add: parse_members.simps)
next
  case (5 q cs acc)
  from "5.prems" "5.IH"(2) show ?case
    by (auto simp: parse_members.simps isArray_def split: if_splits list.splits option.splits)
qed

lemma parse_value_Arr_bracket:
  "parse_value s = Some (Arr xs, r) \<Longrightarrow> \<exists>cs. s = CHR ''['' # cs"
  using parse_result_shapes(1) [of s "Arr xs" r] by (simp add: isArray_def)

lemma dropWhile_shorter: "takeWhile P xs \<noteq> [] \<Longrightarrow> length (dropWhile P xs) < length xs"
  by (induction xs) (auto simp: less_Suc_eq_le length_dropWhile_le split: if_splits)

lemma parse_exponent_length: "parse_exponent s = Some (e, r) \<Longrightarrow> length r \<le> length s"
proof -
  have le: "length (dropWhile is_digit t) \<le> length t" for t
    by (rule length_dropWhile_le)
  assume "parse_exponent s = Some (e, r)"
  then show ?thesis
    using le [of "tl s"] le [of "tl (tl s)"]
    by (auto simp: parse_exponent_def Let_def split: list.splits if_splits)
qed

lemma parse_json_number_length:
  assumes "parse_json_number s = Some (n, r)"
  shows "length r < length s"
proof -
  define neg where "neg = (case s of [] \<Rightarrow> False | c # _ \<Rightarrow> c = CHR ''-'')"
  define s1 where "s1 = (if neg then tl s else s)"
  define zero where "zero = (case s1 of [] \<Rightarrow> False | c # _ \<Rightarrow> c = CHR ''0'')"
  define ip where "ip = (if zero then ''0'' else takeWhile is_digit s1)"
  define r1 where "r1 = (if zero then tl s1 else dropWhile is_digit s1)"
  define frac where
    "frac = (case r1 of [] \<Rightarrow> False | c # r \<Rightarrow> c = CHR ''.'' \<and> takeWhile is_digit r \<noteq> [])"
  define r2 where "r2 = (if frac then dropWhile is_digit (tl r1) else r1)"
  have s1: "length s1 \<le> length s"
    by (simp add: s1_def)
  from assms have ip: "ip \<noteq> []"
    by (auto simp: parse_json_number_def Let_def neg_def s1_def zero_def ip_def
        split: if_splits)
  from assms have r: "r = r2 \<or> (\<exists>e. parse_exponent r2 = Some (e, r))"
    unfolding parse_json_number_def Let_def neg_def [symmetric] s1_def [symmetric]
      zero_def [symmetric] r1_def [symmetric] frac_def [symmetric] r2_def [symmetric]
    by (auto split: if_splits option.splits)
  have r1: "length r1 < length s1"
  proof (cases zero)
    case True
    then have "s1 \<noteq> []" by (auto simp: zero_def)
    with True show ?thesis by (simp add: r1_def)
  next
    case False
    with ip show ?thesis by (simp add: r1_def ip_def dropWhile_shorter)
  qed
  have "length (dropWhile is_digit (tl r1)) \<le> length r1"
    using length_dropWhile_le [of is_digit "tl r1"] by simp
  then have r2: "length r2 \<le> length r1"
    by (simp add: r2_def)
  from r have "length r \<le> length r2"
    by (auto dest: parse_exponent_length)
  with s1 r1 r2 show ?thesis by simp
qed

lemma parse_value_shorter:
  "parse_value s = Some (v, r) \<Longrightarrow> length r < length s"
  "parse_elements s1 acc1 = Some (v1, r1) \<Longrightarrow> length r1 < length s1"
  "parse_members s2 acc2 = Some (v2, r2) \<Longrightarrow> length r2 < length s2"
proof (induction s and s1 acc1 and s2 acc2 arbitrary: v r and v1 r1 and v2 r2
    rule: parse_value_parse_elements_parse_members.induct)
  case 1
  then show ?case by (simp add: parse_value.simps)
next
  case (2 c cs)
  show ?case
  proof (cases "c = CHR ''['' \<or> c = CHR ''{''")
    case False
    with "2.prems" show ?thesis
      by (auto simp: parse_value.simps split: if_splits option.splits
          dest!: parse_string_length parse_json_number_length)
  next
    case True
    with "2.prems" obtain d t where dt: "skip_ws cs = d # t"
      by (auto simp: parse_value.simps split: list.splits if_splits)
    then have t: "length t < length cs" by (rule skip_ws_Cons_length)
    show ?thesis
    proof (cases "c = CHR ''[''")
      case True
      show ?thesis
      proof (cases "d = CHR '']''")
        case True
        with \<open>c = CHR ''[''\<close> "2.prems" dt t show ?thesis
          by (simp add: parse_value.simps)
      next
        case False
        with \<open>c = CHR ''[''\<close> "2.prems" dt
        have "parse_elements (skip_ws cs) [] = Some (v, r)"
          by (simp add: parse_value.simps)
        then have "length r < length (skip_ws cs)"
          using "2.IH"(1) [OF \<open>c = CHR ''[''\<close> dt False] by simp
        with length_skip_ws [of cs] show ?thesis by simp
      qed
    next
      case False
      with True have brace: "c = CHR ''{''" by simp
      show ?thesis
      proof (cases "d = CHR ''}''")
        case True
        with brace "2.prems" dt t show ?thesis
          by (simp add: parse_value.simps)
      next
        case False
        with brace "2.prems" dt
        have "parse_members (skip_ws cs) [] = Some (v, r)"
          by (simp add: parse_value.simps)
        then have "length r < length (skip_ws cs)"
          using "2.IH"(2) [OF _ brace dt False] brace by simp
        with length_skip_ws [of cs] show ?thesis by simp
      qed
    qed
  qed
next
  case (3 s acc)
  from "3.prems" obtain v r where vr: "parse_value s = Some (v, r)" "length r < length s"
    by (auto simp: parse_elements.simps [of s acc] split: option.splits if_splits)
  from "3.prems" vr obtain c r' where c: "skip_ws r = c # r'"
    by (auto simp: parse_elements.simps [of s acc] split: list.splits)
  then have r': "length r' < length r" by (rule skip_ws_Cons_length)
  show ?case
  proof (cases "c = CHR '',''")
    case True
    with "3.prems" vr c have "parse_elements (skip_ws r') (acc @ [v]) = Some (v1, r1)"
      by (simp add: parse_elements.simps [of s acc])
    then have "length r1 < length (skip_ws r')"
      using "3.IH"(2) vr c True by auto
    with r' vr length_skip_ws [of r'] show ?thesis by simp
  next
    case False
    with "3.prems" vr c have "r1 = r'"
      by (auto simp: parse_elements.simps [of s acc] split: if_splits)
    with r' vr show ?thesis by simp
  qed
next
  case (4 acc)
  then show ?case by (simp add: parse_members.simps)
next
  case (5 q cs acc)
  from "5.prems" obtain key r where kr: "q = CHR 0x22" "parse_string cs = Some (key, r)"
    by (auto simp: parse_members.simps split: option.splits if_splits)
  from "5.prems" kr obtain ra where ra: "skip_ws r = CHR '':'' # ra"
    by (auto simp: parse_members.simps split: list.splits if_splits)
  from "5.prems" kr ra obtain v rb where
    vrb: "parse_value (skip_ws ra) = Some (v, rb)" "length rb < length (skip_ws ra)"
    by (auto simp: parse_members.simps split: option.splits if_splits)
  from "5.prems" kr ra vrb obtain c rc where c: "skip_ws rb = c # rc"
    by (auto simp: parse_members.simps split: list.splits)
  have len: "length rc < length cs"
    using parse_string_length [OF kr(2)] skip_ws_Cons_length [OF ra] length_skip_ws [of ra]
      vrb(2) skip_ws_Cons_length [OF c]
    by simp
  show ?case
  proof (cases "c = CHR '',''")
    case True
    with "5.prems" kr ra vrb c
    have "parse_members (skip_ws rc) (obj_set acc key v) = Some (v2, r2)"
      by (simp add: parse_members.simps)
    then have "length r2 < length (skip_ws rc)"
      using "5.IH"(2) kr ra vrb c True by auto
    with len length_skip_ws [of rc] show ?thesis by simp
  next
    case False
    with "5.prems" kr ra vrb c have "r2 = rc"
      by (auto simp: parse_members.simps split: if_splits)
    with len show ?thesis by simp
  qed
qed

lemma JSON_parse_Arr_bracket:
  assumes "JSON_parse s = Inr (Arr xs)"
  shows "CHR ''['' \<in> set s"
proof -
  from assms obtain r where "parse_value (skip_ws s) = Some (Arr xs, r)"
    by (auto simp: JSON_parse_def split: option.splits if_splits)
  then obtain cs where "skip_ws s = CHR ''['' # cs"
    using parse_value_Arr_bracket by blast
  then have "CHR ''['' \<in> set (dropWhile is_json_ws s)"
    by (simp add: skip_ws_def)
  then show ?thesis
    using set_dropWhileD by fastforce
qed

section \<open>Properties of the array and json coercers\<close>

lemmas trim_eval = trim_def skip_seqs.simps js_whitespace_def

lemma array_no_parser:
  "array value None =
    Inr (case JSON_parse_value value of
           Inr v \<Rightarrow> if isArray v then v else Arr []
         | Inl _ \<Rightarrow>
            (case value of
               Str s \<Rightarrow> if trim s \<noteq> [] then Arr (map Str (split s '','')) else Arr []
             | _ \<Rightarrow> Arr []))"
  by (cases "value") (auto simp: array_def Let_def split: sum.splits)

text \<open>
  Claim C3. Without a per-element parser the array coercer never throws and returns:
  the parsed value when the input, as JSON, is an array; the empty array when it is valid
  JSON of another shape (there is no comma split then); the pieces between the commas when
  the input is a string that is not valid JSON and has content after trimming; the empty
  array for a string that is empty after trimming, and for any other input that is not
  valid JSON. In particular array('["a","b"]') = ["a","b"], array("a,b,c") = ["a","b","c"]
  and array("   ") = [].
\<close>

theorem C3_array_coercer:
  \<open>(JSON_parse_value value = Inr (Arr xs) \<longrightarrow> array value None = Inr (Arr xs)) \<and>
   (JSON_parse_value value = Inr v \<and> \<not> isArray v \<longrightarrow> array value None = Inr (Arr [])) \<and>
   (JSON_parse_value (Str s) = Inl err \<and> trim s \<noteq> [] \<longrightarrow>
      array (Str s) None = Inr (Arr (map Str (split s '','')))) \<and>
   (trim s = [] \<longrightarrow> array (Str s) None = Inr (Arr [])) \<and>
   (JSON_parse_value value = Inl err \<and> \<not> isString value \<longrightarrow> array value None = Inr (Arr [])) \<and>
   array (Str ''["a","b"]'') None = Inr (Arr [Str ''a'', Str ''b'']) \<and>
   array (Str ''a,b,c'') None = Inr (Arr [Str ''a'', Str ''b'', Str ''c'']) \<and>
   array (Str ''   '') None = Inr (Arr [])\<close>
proof (intro conjI impI)
  assume "JSON_parse_value value = Inr (Arr xs)"
  then show "array value None = Inr (Arr xs)"
    by (simp add: array_no_parser isArray_def)
next
  assume "JSON_parse_value value = Inr v \<and> \<not> isArray v"
  then show "array value None = Inr (Arr [])"
    by (simp add: array_no_parser)
next
  assume "JSON_parse_value (Str s) = Inl err \<and> trim s \<noteq> []"
  then show "array (Str s) None = Inr (Arr (map Str (split s '','')))"
    by (simp add: array_no_parser)
next
  assume empty: "trim s = []"
  have "JSON_parse s \<noteq> Inr (Arr ys)" for ys
    using JSON_parse_Arr_bracket [of s ys] trim_empty_no_bracket [OF empty] by blast
  then have "\<not> isArray w" if "JSON_parse s = Inr w" for w
    using that by (cases w) (auto simp: isArray_def)
  with empty show "array (Str s) None = Inr (Arr [])"
    by (auto simp: array_no_parser JSON_parse_value_def split: sum.splits)
next
  assume "JSON_parse_value value = Inl err \<and> \<not> isString value"
  then show "array value None = Inr (Arr [])"
    by (cases "value") (auto simp: array_no_parser isString_def)
next
  show \<open>array (Str ''["a","b"]'') None = Inr (Arr [Str ''a'', Str ''b''])\<close>
    by (simp add: array_def json_eval isArray_def)
next
  show "array (Str ''a,b,c'') None = Inr (Arr [Str ''a'', Str ''b'', Str ''c''])"
    by (simp add: array_def json_eval isArray_def trim_eval split_def)
next
  show "array (Str ''   '') None = Inr (Arr [])"
    by (simp add: array_def json_eval isArray_def trim_eval)
qed

text \<open>
  The theorem at "[1]" (a JSON array), at the JSON string "a,b" in quotes (valid JSON, not
  an array: no comma split), at "x,y" (not JSON), at a blank string, and at the array
  ["a","b"], whose string form "a,b" is not JSON.
\<close>

theorem C3_array_witness:
  \<open>array (Str ''[1]'') None = Inr (Arr [Num (Fin 1 0)]) \<and>
   array (Str ''"a,b"'') None = Inr (Arr []) \<and>
   array (Str ''x,y'') None = Inr (Arr [Str ''x'', Str ''y'']) \<and>
   array (Str [CHR 0x09, CHR 0x20]) None = Inr (Arr []) \<and>
   array (Arr [Str ''a'', Str ''b'']) None = Inr (Arr [])\<close>
proof -
  have p1: "JSON_parse_value (Str ''[1]'') = Inr (Arr [Num (Fin 1 0)])"
    by (simp add: json_eval)
  have p2: \<open>JSON_parse_value (Str ''"a,b"'') = Inr (Str ''a,b'') \<and> \<not> isArray (Str ''a,b'')\<close>
    by (simp add: json_eval isArray_def)
  have p3: "JSON_parse_value (Str ''x,y'') = Inl SyntaxError \<and> trim ''x,y'' \<noteq> []"
    by (simp add: json_eval trim_eval)
  have p4: "trim [CHR 0x09, CHR 0x20] = []"
    by (simp add: trim_eval)
  have p5: "JSON_parse_value (Arr [Str ''a'', Str ''b'']) = Inl SyntaxError \<and>
      \<not> isString (Arr [Str ''a'', Str ''b''])"
    by (simp add: json_eval isString_def intercalate_def)
  have "array (Str ''[1]'') None = Inr (Arr [Num (Fin 1 0)])"
    using C3_array_coercer [of "Str ''[1]''" "[Num (Fin 1 0)]"] p1 by blast
  moreover have \<open>array (Str ''"a,b"'') None = Inr (Arr [])\<close>
    using C3_array_coercer [of \<open>Str ''"a,b"''\<close> _ "Str ''a,b''"] p2 by blast
  moreover have "array (Str ''x,y'') None = Inr (Arr (map Str (split ''x,y'' '','')))"
    using C3_array_coercer [of _ _ _ "''x,y''" SyntaxError] p3 by blast
  moreover have "array (Str [CHR 0x09, CHR 0x20]) None = Inr (Arr [])"
    using C3_array_coercer [of _ _ _ "[CHR 0x09, CHR 0x20]"] p4 by blast
  moreover have "array (Arr [Str ''a'', Str ''b'']) None = Inr (Arr [])"
    using C3_array_coercer [of "Arr [Str ''a'', Str ''b'']" _ _ _ SyntaxError] p5 by blast
  ultimately show ?thesis
    by (simp add: split_def)
qed



section \<open>Properties of the ArrayTransformer\<close>

lemma modes_distinct:
  "MODE_ANY \<noteq> MODE_JSON" "MODE_ANY \<noteq> MODE_SEPARATOR" "MODE_JSON \<noteq> MODE_SEPARATOR"
  by (simp_all add: MODE_ANY_def MODE_JSON_def MODE_SEPARATOR_def)

lemma JSON_stringify_Arr:
  "JSON_stringify (Arr xs) = Some (''['' @ intercalate '','' (stringify_elements xs) @ '']'')"
  by simp

lemma transformer_parse_not_array:
  assumes "\<not> isArray v" and "ToString v = Inr str"
  shows "transformer_parse this v =
    Inr (let decoded = (if t_mode this = MODE_JSON \<or> t_mode this = MODE_ANY then parseJSON str else v);
             kept = (if isArray decoded then decoded else Null)
         in if t_mode this = MODE_SEPARATOR \<or> (t_mode this = MODE_ANY \<and> \<not> isArray decoded)
            then Arr (map Str (split str (t_separator this)))
            else kept)"
proof -
  have "ToBoolean w = True" if "isArray w" for w
    using that by (cases w) (simp_all add: isArray_def)
  then show ?thesis
    using assms by (auto simp: transformer_parse_def Let_def)
qed

text \<open>
  Claim C9. For a transformer whose mode is ANY, JSON or SEPARATOR, with any separator:
  parse returns a list as it is; for another input with the string form \<open>str\<close>, JSON mode
  returns the JSON-decoded \<open>str\<close> when that is a list (and null otherwise), ANY mode returns
  the JSON-decoded \<open>str\<close> when that is a list and otherwise the pieces of \<open>str\<close> between
  the separators, and SEPARATOR mode returns the pieces of \<open>str\<close> between the separators.
  reverse returns an input that is not a list unchanged; it returns the JSON text of a
  list in JSON and ANY mode, and the elements' string forms joined by the separator in
  SEPARATOR mode.
\<close>

theorem C9_array_transformer:
  "t_mode this \<in> {MODE_ANY, MODE_JSON, MODE_SEPARATOR} \<longrightarrow>
     transformer_parse this (Arr xs) = Inr (Arr xs) \<and>
     (\<not> isArray v \<and> ToString v = Inr str \<longrightarrow>
        (t_mode this = MODE_JSON \<longrightarrow>
           transformer_parse this v =
             Inr (case JSON_parse str of Inr (Arr ys) \<Rightarrow> Arr ys | _ \<Rightarrow> Null)) \<and>
        (t_mode this = MODE_ANY \<longrightarrow>
           transformer_parse this v =
             Inr (case JSON_parse str of
                    Inr (Arr ys) \<Rightarrow> Arr ys
                  | _ \<Rightarrow> Arr (map Str (split str (t_separator this))))) \<and>
        (t_mode this = MODE_SEPARATOR \<longrightarrow>
           transformer_parse this v = Inr (Arr (map Str (split str (t_separator this)))))) \<and>
     (\<not> isArray v \<longrightarrow> transformer_reverse this v = Inr v) \<and>
     (t_mode this = MODE_JSON \<or> t_mode this = MODE_ANY \<longrightarrow>
        transformer_reverse this (Arr xs) =
          Inr (Str (''['' @ intercalate '','' (stringify_elements xs) @ '']''))) \<and>
     (t_mode this = MODE_SEPARATOR \<and> elem_strings xs = Inr ss \<longrightarrow>
        transformer_reverse this (Arr xs) = Inr (Str (intercalate (t_separator this) ss)))"
proof (intro impI conjI)
  show "transformer_parse this (Arr xs) = Inr (Arr xs)"
    by (simp add: transformer_parse_def isArray_def)
next
  assume v: "\<not> isArray v \<and> ToString v = Inr str" and m: "t_mode this = MODE_JSON"
  show "transformer_parse this v =
      Inr (case JSON_parse str of Inr (Arr ys) \<Rightarrow> Arr ys | _ \<Rightarrow> Null)"
    using v m modes_distinct
    by (auto simp: transformer_parse_not_array parseJSON_def isArray_def Let_def
        split: sum.splits jsval.splits)
next
  assume v: "\<not> isArray v \<and> ToString v = Inr str" and m: "t_mode this = MODE_ANY"
  show "transformer_parse this v =
      Inr (case JSON_parse str of
             Inr (Arr ys) \<Rightarrow> Arr ys
           | _ \<Rightarrow> Arr (map Str (split str (t_separator this))))"
    using v m modes_distinct
    by (auto simp: transformer_parse_not_array parseJSON_def isArray_def Let_def
        split: sum.splits jsval.splits)
next
  assume v: "\<not> isArray v \<and> ToString v = Inr str" and m: "t_mode this = MODE_SEPARATOR"
  show "transformer_parse this v = Inr (Arr (map Str (split str (t_separator this))))"
    using v m by (simp add: transformer_parse_not_array Let_def)
next
  assume "\<not> isArray v"
  then show "transformer_reverse this v = Inr v"
    by (cases v) (simp_all add: transformer_reverse_def isArray_def)
next
  assume "t_mode this = MODE_JSON \<or> t_mode this = MODE_ANY"
  then show "transformer_reverse this (Arr xs) =
      Inr (Str (''['' @ intercalate '','' (stringify_elements xs) @ '']''))"
    by (auto simp: transformer_reverse_def)
next
  assume "t_mode this = MODE_SEPARATOR \<and> elem_strings xs = Inr ss"
  then show "transformer_reverse this (Arr xs) = Inr (Str (intercalate (t_separator this) ss))"
    using modes_distinct by (auto simp: transformer_reverse_def)
qed

text \<open>
  The theorem at the default transformer (mode ANY, separator ","): the text "[1,2]"
  decodes to the list [1, 2], the text "a,b" is split, and the list ["a", 1] is encoded as
  JSON; and at a transformer in SEPARATOR mode with the separator "; ", which joins that
  list to "a; 1".
\<close>

theorem C9_array_transformer_witness:
  \<open>transformer_parse (ArrayTransformer \<lparr>opt_mode = None, opt_separator = None\<rparr>) (Str ''[1,2]'') =
     Inr (Arr [Num (Fin 1 0), Num (Fin 2 0)]) \<and>
   transformer_parse (ArrayTransformer \<lparr>opt_mode = None, opt_separator = None\<rparr>) (Str ''a,b'') =
     Inr (Arr [Str ''a'', Str ''b'']) \<and>
   transformer_reverse (ArrayTransformer \<lparr>opt_mode = None, opt_separator = None\<rparr>)
       (Arr [Str ''a'', Num (Fin 1 0)]) =
     Inr (Str ''["a",1]'') \<and>
   transformer_reverse
       (ArrayTransformer \<lparr>opt_mode = Some MODE_SEPARATOR, opt_separator = Some ''; ''\<rparr>)
       (Arr [Str ''a'', Num (Fin 1 0)]) =
     Inr (Str ''a; 1'')\<close>
proof -
  let ?any = "ArrayTransformer \<lparr>opt_mode = None, opt_separator = None\<rparr>"
  let ?sep = "ArrayTransformer \<lparr>opt_mode = Some MODE_SEPARATOR, opt_separator = Some ''; ''\<rparr>"
  have any: "t_mode ?any = MODE_ANY" "t_separator ?any = '',''"
    by (simp_all add: ArrayTransformer_def)
  have sep: "t_mode ?sep = MODE_SEPARATOR" "t_separator ?sep = ''; ''"
    by (simp_all add: ArrayTransformer_def MODE_SEPARATOR_def)
  have str: "\<not> isArray (Str t) \<and> ToString (Str t) = Inr t" for t
    by (simp add: isArray_def)
  have one: "num_to_string (Fin 1 0) = ''1''"
    by (simp add: num_to_string_def nat_digits.simps strip_trailing_zeros_def digit_char_def)
  have "transformer_parse ?any (Str ''[1,2]'') =
      Inr (case JSON_parse ''[1,2]'' of
             Inr (Arr ys) \<Rightarrow> Arr ys
           | _ \<Rightarrow> Arr (map Str (split ''[1,2]'' (t_separator ?any))))"
    using C9_array_transformer [of ?any _ "Str ''[1,2]''" "''[1,2]''"] any str by blast
  then have 1: "transformer_parse ?any (Str ''[1,2]'') = Inr (Arr [Num (Fin 1 0), Num (Fin 2 0)])"
    by (simp add: json_eval)
  have "transformer_parse ?any (Str ''a,b'') =
      Inr (case JSON_parse ''a,b'' of
             Inr (Arr ys) \<Rightarrow> Arr ys
           | _ \<Rightarrow> Arr (map Str (split ''a,b'' (t_separator ?any))))"
    using C9_array_transformer [of ?any _ "Str ''a,b''" "''a,b''"] any str by blast
  then have 2: "transformer_parse ?any (Str ''a,b'') = Inr (Arr [Str ''a'', Str ''b''])"
    by (simp add: json_eval any split_def)
  have "transformer_reverse ?any (Arr [Str ''a'', Num (Fin 1 0)]) =
      Inr (Str (''['' @ intercalate '','' (stringify_elements [Str ''a'', Num (Fin 1 0)]) @ '']''))"
    using C9_array_transformer [of ?any "[Str ''a'', Num (Fin 1 0)]"] any by blast
  then have 3: \<open>transformer_reverse ?any (Arr [Str ''a'', Num (Fin 1 0)]) = Inr (Str ''["a",1]'')\<close>
    by (simp add: intercalate_def quote_string_def quote_char_def one)
  have es: "elem_strings [Str ''a'', Num (Fin 1 0)] = Inr [''a'', ''1'']"
    by (simp add: one)
  have "transformer_reverse ?sep (Arr [Str ''a'', Num (Fin 1 0)]) =
      Inr (Str (intercalate (t_separator ?sep) [''a'', ''1'']))"
    using C9_array_transformer [of ?sep "[Str ''a'', Num (Fin 1 0)]" _ _ "[''a'', ''1'']"] sep es
    by blast
  then have 4: "transformer_reverse ?sep (Arr [Str ''a'', Num (Fin 1 0)]) = Inr (Str ''a; 1'')"
    by (simp add: sep intercalate_def)
  from 1 2 3 4 show ?thesis by simp
qed

section \<open>Properties of the multilingual transforms\<close>

lemma obj_get_obj_set:
  "obj_get (obj_set kvs k v) k' = (if k' = k then Some v else obj_get kvs k')"
  by (induction kvs) (auto simp: obj_get_def)



lemma multilingual_forEach_lookup:
  assumes "\<forall>l\<in>set langs. parse (prefix @ lt l) parser data = Inr (w l)"
  shows "\<exists>res. multilingual_forEach lt parser prefix data langs vals = Inr res \<and>
    (\<forall>l. obj_get res l =
       (if l \<in> set langs \<and> w l \<noteq> Undefined then Some (w l) else obj_get vals l))"
  using assms
proof (induction langs arbitrary: vals)
  case Nil
  then show ?case by simp
next
  case (Cons lang langs)
  let ?upd = "if \<not> isUndefined (w lang) then obj_set vals lang (w lang) else vals"
  from Cons.prems have step: "parse (prefix @ lt lang) parser data = Inr (w lang)"
    and rest: "\<forall>l\<in>set langs. parse (prefix @ lt l) parser data = Inr (w l)"
    by simp_all
  from Cons.IH [OF rest, of ?upd] obtain res where
    res: "multilingual_forEach lt parser prefix data langs ?upd = Inr res"
      "\<forall>l. obj_get res l =
        (if l \<in> set langs \<and> w l \<noteq> Undefined then Some (w l) else obj_get ?upd l)"
    by blast
  have "multilingual_forEach lt parser prefix data (lang # langs) vals = Inr res"
    using step res(1) by (simp add: Let_def)
  moreover have "obj_get res l =
      (if l \<in> set (lang # langs) \<and> w l \<noteq> Undefined then Some (w l) else obj_get vals l)" for l
    using res(2) by (auto simp: obj_get_obj_set isUndefined_def)
  ultimately show ?case by blast
qed

lemma multilingual_entries:
  assumes seg: "last_segment path = Some prefix" and total: "\<forall>v. vp v = Inr (f v)"
  shows "\<exists>res. multilingual data path (Some vp) (Some parseType) (Some langs) = Inr (Obj res) \<and>
    (\<forall>l. obj_get res l =
       (let x = get data (prefix @ languageTransform parseType l);
            w = (if x = Undefined then Undefined else f x)
        in if l \<in> set langs \<and> w \<noteq> Undefined then Some w else None))"
proof -
  let ?parser = "\<lambda>v. if isUndefined v then Inr Undefined else vp v"
  let ?w = "\<lambda>l. let x = get data (prefix @ languageTransform parseType l)
                in if x = Undefined then Undefined else f x"
  have "\<forall>l\<in>set langs. parse (prefix @ languageTransform parseType l) ?parser data = Inr (?w l)"
    using total by (simp add: parse_def isUndefined_def Let_def)
  from multilingual_forEach_lookup [OF this, of "[]"] obtain res where
    res: "multilingual_forEach (languageTransform parseType) ?parser prefix data langs [] = Inr res"
      "\<forall>l. obj_get res l = (if l \<in> set langs \<and> ?w l \<noteq> Undefined then Some (?w l) else obj_get ([] :: (string \<times> jsval) list) l)"
    by blast
  have "multilingual data path (Some vp) (Some parseType) (Some langs) = Inr (Obj res)"
    using seg res(1) by (simp add: multilingual_def)
  moreover have "obj_get res l =
       (let x = get data (prefix @ languageTransform parseType l);
            w = (if x = Undefined then Undefined else f x)
        in if l \<in> set langs \<and> w \<noteq> Undefined then Some w else None)" for l
    using res(2) by (simp add: obj_get_def Let_def)
  ultimately show ?thesis by blast
qed

lemma path_segments_from_plain:
  assumes "\<forall>c\<in>set s. c \<notin> set ''.[]''" and "cur @ s \<noteq> []"
  shows "path_segments_from cur s = [cur @ s]"
  using assms by (induction s arbitrary: cur) auto

lemma get_plain_key:
  assumes "key \<noteq> []" and "\<forall>c\<in>set key. c \<notin> set ''.[]''"
  shows "get (Obj kvs) key = (case obj_get kvs key of Some v \<Rightarrow> v | None \<Rightarrow> Undefined)"
  using path_segments_from_plain [of key "[]"] assms
  by (simp add: get_def path_segments_def get_segment_def)

lemmas multilingual_eval =
  multilingual_def languageTransform_def CAMELCASE_def last_segment_def parse_def get_def
  path_segments_def get_segment_def obj_get_def ucfirst_def to_upper_def prefixUnderscore_def
  isUndefined_def Let_def

text \<open>
  Claim C5, as the code has it. For a path with a last segment, any language list and
  naming convention, and a per-value parser that does not throw: the candidate key of a
  language code is the last segment followed by the code with its first letter
  capitalised (camelCase convention) or by an underscore and the code as it is written
  (any other convention); the key is read in the source through the path resolver; the
  result has an entry for a language of the list exactly when the value read is not
  undefined and the value that the parser returns for it is not undefined, and the entry
  holds what the parser returned. Every other language has no entry. A key without dots
  and brackets is read as an own property of the source object.
\<close>

theorem C5_multilingual_entries:
  "(last_segment path = Some prefix \<and> (\<forall>v. vp v = Inr (f v)) \<longrightarrow>
      (\<exists>res. multilingual data path (Some vp) (Some parseType) (Some langs) = Inr (Obj res) \<and>
         (\<forall>l. obj_get res l =
            (let key = prefix @ (if parseType = CAMELCASE then ucfirst l else CHR ''_'' # l);
                 x = get data key;
                 w = (if x = Undefined then Undefined else f x)
             in if l \<in> set langs \<and> w \<noteq> Undefined then Some w else None)))) \<and>
   (key \<noteq> [] \<and> (\<forall>c\<in>set key. c \<notin> set ''.[]'') \<longrightarrow>
      get (Obj kvs) key = (case obj_get kvs key of Some v \<Rightarrow> v | None \<Rightarrow> Undefined))"
proof (intro conjI impI)
  assume a: "last_segment path = Some prefix \<and> (\<forall>v. vp v = Inr (f v))"
  have lt: "languageTransform parseType l =
      (if parseType = CAMELCASE then ucfirst l else CHR ''_'' # l)" for l
    by (simp add: languageTransform_def prefixUnderscore_def)
  from a multilingual_entries [of path prefix vp f data parseType langs]
  show "\<exists>res. multilingual data path (Some vp) (Some parseType) (Some langs) = Inr (Obj res) \<and>
         (\<forall>l. obj_get res l =
            (let key = prefix @ (if parseType = CAMELCASE then ucfirst l else CHR ''_'' # l);
                 x = get data key;
                 w = (if x = Undefined then Undefined else f x)
             in if l \<in> set langs \<and> w \<noteq> Undefined then Some w else None))"
    by (simp add: lt Let_def)
next
  assume "key \<noteq> [] \<and> (\<forall>c\<in>set key. c \<notin> set ''.[]'')"
  then show "get (Obj kvs) key = (case obj_get kvs key of Some v \<Rightarrow> v | None \<Rightarrow> Undefined)"
    using get_plain_key [of key kvs] by blast
qed

text \<open>
  The theorem at the source { titleNl: "x", titleFr: undefined }, the path "a.title", the
  parser that returns its argument and the languages nl, fr and en: only nl has an entry.
\<close>

theorem C5_multilingual_witness:
  "\<exists>res. multilingual (Obj [(''titleNl'', Str ''x''), (''titleFr'', Undefined)]) ''a.title''
            (Some (\<lambda>v. Inr v)) (Some CAMELCASE) (Some [''nl'', ''fr'', ''en'']) = Inr (Obj res) \<and>
     obj_get res ''nl'' = Some (Str ''x'') \<and> obj_get res ''fr'' = None \<and> obj_get res ''en'' = None"
proof -
  let ?data = "Obj [(''titleNl'', Str ''x''), (''titleFr'', Undefined)]"
  have seg: "last_segment ''a.title'' = Some ''title'' \<and> (\<forall>v. Inr v = Inr (id v))"
    by (simp add: last_segment_def)
  note entries =
    C5_multilingual_entries [of "''a.title''" "''title''" "\<lambda>v. Inr v" id ?data CAMELCASE
      "[''nl'', ''fr'', ''en'']", THEN conjunct1, THEN mp, OF seg]
  show ?thesis
    using entries
    apply (elim exE conjE)
    subgoal for res
      apply (rule exI [of _ res])
      apply (simp add: get_def path_segments_def get_segment_def obj_get_def ucfirst_def
          to_upper_def)
      done
    done
qed

text \<open>
  Where the claim as stated fails. The json coercer as per-value parser returns undefined
  for the text "{bad": the key titleNl is present in the source and its value is not
  undefined, but the result has no entry for nl. Under the underscore convention the code
  "NL" gives the candidate key title_NL, not title_nl.
\<close>

theorem C5_counterexample:
  "multilingual (Obj [(''titleNl'', Str ''{bad'')]) ''title'' (Some json) None (Some [''nl''])
     = Inr (Obj []) \<and>
   get (Obj [(''titleNl'', Str ''{bad'')]) ''titleNl'' = Str ''{bad'' \<and>
   multilingual (Obj [(''title_NL'', Str ''x''), (''title_nl'', Str ''y'')]) ''title'' None
       (Some ''underscore'') (Some [''NL''])
     = Inr (Obj [(''NL'', Str ''x'')])"
  by (simp add: multilingual_eval json_def json_eval)

text \<open>
  Claim C2. With the languages nl and fr, parsing { titleNl: x, titleFr: y } at the path
  "title" produces { nl: x, fr: y } for any two values that are not undefined, and
  reversing that object with the same languages reproduces { titleNl: x, titleFr: y }.
\<close>

theorem C2_multilingual_round_trip:
  "x \<noteq> Undefined \<and> y \<noteq> Undefined \<longrightarrow>
     multilingual (Obj [(''titleNl'', x), (''titleFr'', y)]) ''title'' None None
         (Some [''nl'', ''fr''])
       = Inr (Obj [(''nl'', x), (''fr'', y)]) \<and>
     multilingual_reverse (Obj [(''nl'', x), (''fr'', y)]) ''title'' None None
         (Some [''nl'', ''fr''])
       = Obj [(''titleNl'', x), (''titleFr'', y)]"
  by (simp add: multilingual_eval multilingual_reverse_def)

text \<open>The theorem at the values "x" and "y" of the claim.\<close>

theorem C2_multilingual_witness:
  "multilingual (Obj [(''titleNl'', Str ''x''), (''titleFr'', Str ''y'')]) ''title'' None None
       (Some [''nl'', ''fr''])
     = Inr (Obj [(''nl'', Str ''x''), (''fr'', Str ''y'')]) \<and>
   multilingual_reverse (Obj [(''nl'', Str ''x''), (''fr'', Str ''y'')]) ''title'' None None
       (Some [''nl'', ''fr''])
     = Obj [(''titleNl'', Str ''x''), (''titleFr'', Str ''y'')]"
  using C2_multilingual_round_trip [of "Str ''x''" "Str ''y''"] by simp

section \<open>Properties of groupingMultilingual\<close>















lemmas grouping_eval =
  groupingMultilingual_def suffix_alternatives_def regex_test_def match_here_def unique_def
  keys_def




text \<open>
  A key that is the empty string does not match the regex, and is not copied through:
  \<^verbatim>\<open>.filter()\<close> removes it with the nulls.
\<close>

lemma groupingMultilingual_empty_key:
  "groupingMultilingual [([], Str ''x''), (''abc'', Num (Fin 1 0))] [] None None
       (Some [''nl'', ''fr''])
     = Inr (Obj [(''abc'', Num (Fin 1 0))])"
  by (simp add: grouping_eval multilingual_eval)

section \<open>Properties of the transforms on the store\<close>

lemma preserves_refl: "preserves h h"
  by (simp add: preserves_def)

lemma preserves_length:
  assumes "preserves h h'"
  shows "length h \<le> length h'"
proof -
  from assms have "length (take (length h) h') = length h"
    by (simp add: preserves_def)
  then show ?thesis by simp
qed

lemma preserves_trans:
  assumes "preserves h h'" and "preserves h' h''"
  shows "preserves h h''"
proof -
  from assms(1) have le: "length h \<le> length h'" by (rule preserves_length)
  have "take (length h) h'' = take (length h) (take (length h') h'')"
    using le by (simp add: min_def)
  also have "\<dots> = take (length h) h'"
    using assms(2) by (simp add: preserves_def)
  also have "\<dots> = h"
    using assms(1) by (simp add: preserves_def)
  finally show ?thesis by (simp add: preserves_def)
qed

lemma preserves_new_object: "new_object h = (h', a) \<Longrightarrow> preserves h h' \<and> a = length h"
  by (auto simp: new_object_def preserves_def)

lemma length_h_put: "length (h_put h a key v) = length h"
  by (simp add: h_put_def split: hobj.splits)

lemma preserves_h_put:
  assumes "length h0 \<le> a" and "preserves h0 h"
  shows "preserves h0 (h_put h a key v)"
  using assms by (auto simp: h_put_def preserves_def split: hobj.splits)

lemma preserves_matchKey_loop:
  "length h0 \<le> a \<Longrightarrow> preserves h0 h \<Longrightarrow> preserves h0 (matchKey_loop test v a ks h)"
  by (induction ks arbitrary: h) (simp_all add: preserves_h_put)

lemma preserves_matchKey:
  assumes "matchKey h v test = (h', r)"
  shows "preserves h h' \<and> r = HRef (length h)"
proof -
  have "preserves h (h @ [HObject []])"
    by (simp add: preserves_def)
  then have "preserves h (matchKey_loop test v (length h) (h_keys (h @ [HObject []]) v)
      (h @ [HObject []]))"
    by (intro preserves_matchKey_loop) simp_all
  with assms show ?thesis
    by (auto simp: matchKey_def new_object_def Let_def)
qed

lemma preserves_matchPrefixStrip_loop:
  "length h0 \<le> a \<Longrightarrow> preserves h0 h \<Longrightarrow> preserves h0 (matchPrefixStrip_loop m matched a ks h)"
  by (induction ks arbitrary: h) (simp_all add: preserves_h_put)

lemma preserves_matchPrefixStrip:
  assumes "matchPrefixStrip h v m = (h', r)"
  shows "preserves h h' \<and> (\<exists>a\<ge>length h. r = HRef a)"
proof -
  obtain h1 matched where mk: "matchKey h v (prefix_test m) = (h1, matched)"
    by (cases "matchKey h v (prefix_test m)")
  then have h1: "preserves h h1" by (simp add: preserves_matchKey)
  then have le: "length h \<le> length h1" by (rule preserves_length)
  have "preserves h (h1 @ [HObject []])"
    using h1 by (rule preserves_trans) (simp add: preserves_def)
  then have "preserves h (matchPrefixStrip_loop m matched (length h1)
      (h_keys (h1 @ [HObject []]) matched) (h1 @ [HObject []]))"
    using le by (intro preserves_matchPrefixStrip_loop)
  with assms mk le show ?thesis
    by (auto simp: matchPrefixStrip_def new_object_def Let_def)
qed

lemma preserves_multilingual_forEach:
  assumes "frame_respecting vp" and "length h0 \<le> a"
  shows "preserves h0 h \<Longrightarrow>
    multilingual_forEach_store lt vp prefix data a langs h = Inr h' \<Longrightarrow> preserves h0 h'"
proof (induction langs arbitrary: h)
  case Nil
  then show ?case by simp
next
  case (Cons lang langs)
  let ?x = "h_get_path h data (prefix @ lt lang)"
  let ?step = "if ?x = HUndefined then Inr (h, HUndefined) else vp h ?x"
  from Cons.prems(2) obtain h1 w where step: "?step = Inr (h1, w)"
    by (cases ?step) (auto simp: Let_def)
  then have "preserves h h1"
    using assms(1) by (auto simp: frame_respecting_def preserves_refl split: if_splits)
  with Cons.prems(1) have h1: "preserves h0 h1" by (rule preserves_trans)
  let ?h2 = "if w \<noteq> HUndefined then h_put h1 a lang w else h1"
  from h1 assms(2) have "preserves h0 ?h2"
    by (simp add: preserves_h_put)
  moreover from Cons.prems(2) step
  have "multilingual_forEach_store lt vp prefix data a langs ?h2 = Inr h'"
    by (simp add: Let_def)
  ultimately show ?case by (rule Cons.IH)
qed

lemma preserves_multilingual_store:
  assumes "frame_respecting vp"
    and "multilingual_store h data path vp pt langs = Inr (h', r)"
  shows "preserves h h' \<and> r = HRef (length h)"
proof -
  from assms(2) obtain prefix where "last_segment path = Some prefix"
    by (cases "last_segment path") (auto simp: multilingual_store_def)
  with assms(2) have run: "multilingual_forEach_store (languageTransform pt) vp prefix data
      (length h) langs (h @ [HObject []]) = Inr h'" and r: "r = HRef (length h)"
    by (auto simp: multilingual_store_def new_object_def split: sum.splits)
  have "preserves h (h @ [HObject []])"
    by (simp add: preserves_def)
  from preserves_multilingual_forEach [OF assms(1) _ this run] r show ?thesis
    by simp
qed

lemma preserves_transform_multilingual:
  assumes "frame_respecting vp" and "length h0 \<le> a"
  shows "preserves h0 h \<Longrightarrow>
    transform_multilingual_store data vp pt langs a ks h = Inr h' \<Longrightarrow> preserves h0 h'"
proof (induction ks arbitrary: h)
  case Nil
  then show ?case by simp
next
  case (Cons k ks)
  from Cons.prems(2) obtain h1 m where m: "multilingual_store h data k vp pt langs = Inr (h1, m)"
    by (cases "multilingual_store h data k vp pt langs") auto
  then have "preserves h h1"
    using preserves_multilingual_store [OF assms(1)] by blast
  with Cons.prems(1) have "preserves h0 h1" by (rule preserves_trans)
  with assms(2) have "preserves h0 (h_put h1 a k m)"
    by (simp add: preserves_h_put)
  moreover from Cons.prems(2) m
  have "transform_multilingual_store data vp pt langs a ks (h_put h1 a k m) = Inr h'"
    by simp
  ultimately show ?case by (rule Cons.IH)
qed

lemma preserves_transform_regular:
  "length h0 \<le> a \<Longrightarrow> preserves h0 h \<Longrightarrow> preserves h0 (transform_regular_store data a ks h)"
  by (induction ks arbitrary: h) (simp_all add: preserves_h_put)

lemma preserves_groupingMultilingual_store:
  assumes "frame_respecting vp"
    and "groupingMultilingual_store h data path vp pt langs = Inr (h', r)"
  shows "preserves h h' \<and> r = HRef (length h)"
proof -
  let ?regex = "suffix_alternatives (languageTransform pt) langs"
  let ?mk = "filter_truthy (unique
      (map (\<lambda>key. if regex_test ?regex key then regex_exec ?regex key else None) (h_keys h data)))"
  let ?rk = "filter_truthy
      (map (\<lambda>key. if regex_test ?regex key then None else Some key) (h_keys h data))"
  from assms(2) obtain h2 where
    h2: "transform_multilingual_store data vp pt langs (length h) ?mk (h @ [HObject []]) = Inr h2"
    and res: "h' = transform_regular_store data (length h) ?rk h2" "r = HRef (length h)"
    by (auto simp: groupingMultilingual_store_def new_object_def Let_def split: sum.splits)
  have "preserves h (h @ [HObject []])"
    by (simp add: preserves_def)
  from preserves_transform_multilingual [OF assms(1) _ this h2] have "preserves h h2"
    by simp
  then have "preserves h (transform_regular_store data (length h) ?rk h2)"
    by (intro preserves_transform_regular) simp_all
  with res show ?thesis by simp
qed

lemma read_preserved:
  assumes "closed h" and "preserves h h'"
  shows "refs_below (length h) v \<Longrightarrow> read n h' v = read n h v"
proof (induction n arbitrary: v)
  case 0
  then show ?case by (cases v) simp_all
next
  case (Suc n)
  show ?case
  proof (cases v)
    case (HRef a)
    with Suc.prems have a: "a < length h" by (simp add: refs_below_def)
    from assms(2) have le: "length h \<le> length h'" by (rule preserves_length)
    from assms(2) a have same: "h' ! a = h ! a"
      unfolding preserves_def by (metis nth_take)
    from assms(1) a have below: "\<forall>w\<in>set (obj_vals (h ! a)). refs_below (length h) w"
      by (auto simp: closed_def list_all_iff)
    show ?thesis
    proof (cases "h ! a")
      case (HObject kvs)
      with below have "\<forall>(k, w)\<in>set kvs. refs_below (length h) w"
        by (auto simp: obj_vals_def)
      then have "map (\<lambda>(k, w). (k, read n h' w)) kvs = map (\<lambda>(k, w). (k, read n h w)) kvs"
        using Suc.IH by (intro map_cong) auto
      with HRef HObject a le same show ?thesis by simp
    next
      case (HArray xs)
      with below have "\<forall>w\<in>set xs. refs_below (length h) w"
        by (auto simp: obj_vals_def)
      then have "map (read n h') xs = map (read n h) xs"
        using Suc.IH by (intro map_cong) auto
      with HRef HArray a le same show ?thesis by simp
    qed
  qed simp_all
qed

text \<open>
  Claim C10. A call of matchKey, matchPrefixStrip, multilingual or groupingMultilingual
  (the last two with a per-value parser that leaves the objects of the store as they
  are) leaves every object that existed before the call at its address with its content,
  and returns a reference to an object that did not exist before. Hence in a store
  without dangling references the source object reads the same, at every depth, after
  the call as before it.
\<close>

theorem C10_source_unchanged:
  "(matchKey h data test = (h', r) \<longrightarrow> preserves h h' \<and> r = HRef (length h)) \<and>
   (matchPrefixStrip h data m = (h', r) \<longrightarrow> preserves h h' \<and> (\<exists>a\<ge>length h. r = HRef a)) \<and>
   (frame_respecting vp \<and> multilingual_store h data path vp pt langs = Inr (h', r) \<longrightarrow>
      preserves h h' \<and> r = HRef (length h)) \<and>
   (frame_respecting vp \<and> groupingMultilingual_store h data path vp pt langs = Inr (h', r) \<longrightarrow>
      preserves h h' \<and> r = HRef (length h)) \<and>
   (closed h \<and> preserves h h' \<and> refs_below (length h) data \<longrightarrow>
      read n h' data = read n h data)"
proof (intro conjI impI)
  assume "matchKey h data test = (h', r)"
  then have "preserves h h' \<and> r = HRef (length h)" by (rule preserves_matchKey)
  then show "preserves h h'" "r = HRef (length h)" by simp_all
next
  assume "matchPrefixStrip h data m = (h', r)"
  then have "preserves h h' \<and> (\<exists>a\<ge>length h. r = HRef a)" by (rule preserves_matchPrefixStrip)
  then show "preserves h h'" "\<exists>a\<ge>length h. r = HRef a" by simp_all
next
  assume "frame_respecting vp \<and> multilingual_store h data path vp pt langs = Inr (h', r)"
  then have "preserves h h' \<and> r = HRef (length h)"
    using preserves_multilingual_store by blast
  then show "preserves h h'" "r = HRef (length h)" by simp_all
next
  assume "frame_respecting vp \<and> groupingMultilingual_store h data path vp pt langs = Inr (h', r)"
  then have "preserves h h' \<and> r = HRef (length h)"
    using preserves_groupingMultilingual_store by blast
  then show "preserves h h'" "r = HRef (length h)" by simp_all
next
  assume "closed h \<and> preserves h h' \<and> refs_below (length h) data"
  then show "read n h' data = read n h data"
    using read_preserved by blast
qed

lemmas store_eval =
  groupingMultilingual_store_def multilingual_store_def matchPrefixStrip_def matchKey_def
  new_object_def h_put_def h_get_def h_keys_def h_get_path_def path_segments_def
  prefix_test_def prefix_strip_def lcfirst_def to_lower_def

text \<open>
  The theorem at a store with the source { titleNl: "x", titleFr: "y", abc: 1, sub: s },
  where s is the object { k: "v" }: groupingMultilingual with the languages nl and fr
  adds two objects to the store, the source reads as before, and the result reads
  { title: { nl: "x", fr: "y" }, abc: 1, sub: { k: "v" } }. matchPrefixStrip with the
  prefix "title" on the same store leaves the source as it is, too.
\<close>

theorem C10_source_unchanged_witness:
  "groupingMultilingual_store
       [HObject [(''titleNl'', HStr ''x''), (''titleFr'', HStr ''y''),
                 (''abc'', HNum (Fin 1 0)), (''sub'', HRef 1)],
        HObject [(''k'', HStr ''v'')]]
       (HRef 0) [] (\<lambda>h v. Inr (h, v)) CAMELCASE [''nl'', ''fr'']
     = Inr ([HObject [(''titleNl'', HStr ''x''), (''titleFr'', HStr ''y''),
                      (''abc'', HNum (Fin 1 0)), (''sub'', HRef 1)],
             HObject [(''k'', HStr ''v'')],
             HObject [(''title'', HRef 3), (''abc'', HNum (Fin 1 0)), (''sub'', HRef 1)],
             HObject [(''nl'', HStr ''x''), (''fr'', HStr ''y'')]],
            HRef 2) \<and>
   read 3 [HObject [(''titleNl'', HStr ''x''), (''titleFr'', HStr ''y''),
                    (''abc'', HNum (Fin 1 0)), (''sub'', HRef 1)],
           HObject [(''k'', HStr ''v'')],
           HObject [(''title'', HRef 3), (''abc'', HNum (Fin 1 0)), (''sub'', HRef 1)],
           HObject [(''nl'', HStr ''x''), (''fr'', HStr ''y'')]] (HRef 0)
     = Obj [(''titleNl'', Str ''x''), (''titleFr'', Str ''y''), (''abc'', Num (Fin 1 0)),
            (''sub'', Obj [(''k'', Str ''v'')])] \<and>
   read 3 [HObject [(''titleNl'', HStr ''x''), (''titleFr'', HStr ''y''),
                    (''abc'', HNum (Fin 1 0)), (''sub'', HRef 1)],
           HObject [(''k'', HStr ''v'')],
           HObject [(''title'', HRef 3), (''abc'', HNum (Fin 1 0)), (''sub'', HRef 1)],
           HObject [(''nl'', HStr ''x''), (''fr'', HStr ''y'')]] (HRef 2)
     = Obj [(''title'', Obj [(''nl'', Str ''x''), (''fr'', Str ''y'')]),
            (''abc'', Num (Fin 1 0)), (''sub'', Obj [(''k'', Str ''v'')])] \<and>
   preserves
     [HObject [(''titleNl'', HStr ''x''), (''titleFr'', HStr ''y''),
               (''abc'', HNum (Fin 1 0)), (''sub'', HRef 1)],
      HObject [(''k'', HStr ''v'')]]
     (fst (matchPrefixStrip
        [HObject [(''titleNl'', HStr ''x''), (''titleFr'', HStr ''y''),
                  (''abc'', HNum (Fin 1 0)), (''sub'', HRef 1)],
         HObject [(''k'', HStr ''v'')]]
        (HRef 0) ''title''))"
proof -
  let ?h = "[HObject [(''titleNl'', HStr ''x''), (''titleFr'', HStr ''y''),
                      (''abc'', HNum (Fin 1 0)), (''sub'', HRef 1)],
             HObject [(''k'', HStr ''v'')]]"
  let ?h' = "?h @ [HObject [(''title'', HRef 3), (''abc'', HNum (Fin 1 0)), (''sub'', HRef 1)],
                   HObject [(''nl'', HStr ''x''), (''fr'', HStr ''y'')]]"
  let ?id = "\<lambda>(h :: store) (v :: hval). (Inr (h, v) :: (store \<times> hval) result)"
  have run: "groupingMultilingual_store ?h (HRef 0) [] ?id CAMELCASE [''nl'', ''fr'']
      = Inr (?h', HRef 2)"
    by (simp add: store_eval grouping_eval multilingual_eval)
  have fr: "frame_respecting ?id"
    by (simp add: frame_respecting_def preserves_refl)
  have cl: "closed ?h \<and> refs_below (length ?h) (HRef 0)"
    by (simp add: closed_def obj_vals_def refs_below_def)
  have pres: "preserves ?h ?h'"
    using C10_source_unchanged [of ?h "HRef 0" _ ?h' "HRef 2" _ ?id "[]" CAMELCASE
        "[''nl'', ''fr'']"] fr run
    by blast
  have "read 3 ?h' (HRef 0) = read 3 ?h (HRef 0)"
    using C10_source_unchanged [of ?h "HRef 0" _ ?h' _ _ _ _ _ _ 3] cl pres
    by blast
  then have src: "read 3 ?h' (HRef 0)
      = Obj [(''titleNl'', Str ''x''), (''titleFr'', Str ''y''), (''abc'', Num (Fin 1 0)),
             (''sub'', Obj [(''k'', Str ''v'')])]"
    by (simp add: eval_nat_numeral)
  have res: "read 3 ?h' (HRef 2)
      = Obj [(''title'', Obj [(''nl'', Str ''x''), (''fr'', Str ''y'')]),
             (''abc'', Num (Fin 1 0)), (''sub'', Obj [(''k'', Str ''v'')])]"
    by (simp add: eval_nat_numeral)
  have strip: "preserves ?h (fst (matchPrefixStrip ?h (HRef 0) ''title''))"
    using C10_source_unchanged [of ?h "HRef 0" _ "fst (matchPrefixStrip ?h (HRef 0) ''title'')"
        "snd (matchPrefixStrip ?h (HRef 0) ''title'')" "''title''"]
    by simp
  from run src res strip show ?thesis by simp
qed

section \<open>Properties of the factory\<close>

lemma nestsResult_multilingual_fn: "or_false (get_flag P_multilingual NestsResult) = True"
  by (simp add: or_false_def get_flag_def parsers_assignments_def)

lemma nestsResult_grouping_fn: "or_false (get_flag P_groupingMultilingual NestsResult) = False"
  by (simp add: or_false_def get_flag_def parsers_assignments_def)

text \<open>
  Claim C1. Descriptors of the multilingual factory carry nestsResult = true for the plain
  variant; for the grouping variant (group = true) the flag copied from
  \<^verbatim>\<open>groupingMultilingual\<close> is \<^verbatim>\<open>undefined\<close>, because the module assigns
  \<^verbatim>\<open>multilingual.nestsResult\<close> twice and \<^verbatim>\<open>groupingMultilingual.nestsResult\<close> never, so
  the descriptor carries nestsResult = false.
\<close>

theorem C1_grouping_descriptor_nestsResult_false:
  "d_nestsResult (multilingual_factory path vp False pt langs) = True \<and>
   d_nestsResult (multilingual_factory path vp True pt langs) = False"
  by (simp add: multilingual_factory_def createParser_def Let_def
      nestsResult_multilingual_fn nestsResult_grouping_fn)

end
